theory Spec2Isabelle
  imports Main "HOL-Library.AList" "HOL-Library.Word"
begin

unbundle bit_operations_syntax

section \<open>Python values\<close>

text \<open>
  The scripts exchange JSON documents. A value read by \<open>json.loads\<close> or handed to
  \<open>json.dumps\<close> is a \<open>json\<close>; a Python \<open>dict\<close> is an association list in insertion
  order. Numbers are integers (no floating point value occurs in the records of the
  pipeline). A \<open>string\<close> is a list of code points below 256. A line of an NDJSON
  stream is represented by the JSON value that \<open>json.dumps\<close> renders on it.
\<close>

datatype json =
    JNull
  | JBool bool
  | JInt int
  | JStr string
  | JArr "json list"
  | JObj "(string \<times> json) list"

type_synonym dict = "(string \<times> json) list"

datatype py_error = TypeError | AttributeError | KeyError | IndexError

text \<open>\<open>d.get(k)\<close> and \<open>d.get(k, default)\<close>.\<close>

definition dict_get :: "dict \<Rightarrow> string \<Rightarrow> json" where
  "dict_get d k = (case map_of d k of None \<Rightarrow> JNull | Some v \<Rightarrow> v)"

definition dict_get_default :: "dict \<Rightarrow> string \<Rightarrow> json \<Rightarrow> json" where
  "dict_get_default d k dflt = (case map_of d k of None \<Rightarrow> dflt | Some v \<Rightarrow> v)"

text \<open>Truth value of a Python object in a condition.\<close>

fun py_truthy :: "json \<Rightarrow> bool" where
  "py_truthy JNull = False"
| "py_truthy (JBool b) = b"
| "py_truthy (JInt i) = (i \<noteq> 0)"
| "py_truthy (JStr s) = (s \<noteq> [])"
| "py_truthy (JArr xs) = (xs \<noteq> [])"
| "py_truthy (JObj kvs) = (kvs \<noteq> [])"

text \<open>
  Iterating a value in a \<open>for\<close> loop: a list gives its elements, a string its
  characters, a dict its keys; anything else raises \<open>TypeError\<close>.
\<close>

fun py_iter :: "json \<Rightarrow> py_error + json list" where
  "py_iter (JArr xs) = Inr xs"
| "py_iter (JStr s) = Inr (map (\<lambda>c. JStr [c]) s)"
| "py_iter (JObj kvs) = Inr (map (\<lambda>kv. JStr (fst kv)) kvs)"
| "py_iter JNull = Inl TypeError"
| "py_iter (JBool b) = Inl TypeError"
| "py_iter (JInt i) = Inl TypeError"

text \<open>\<open>sep.join(xs)\<close>.\<close>

fun py_join :: "string \<Rightarrow> string list \<Rightarrow> string" where
  "py_join sep [] = []"
| "py_join sep [x] = x"
| "py_join sep (x # y # ys) = x @ sep @ py_join sep (y # ys)"

subsection \<open>Formatting\<close>

definition digit_char :: "nat \<Rightarrow> char" where
  "digit_char d = ''0123456789abcdef'' ! d"

fun dec_digits :: "nat \<Rightarrow> string" where
  "dec_digits n =
     (if n < 10 then [digit_char n] else dec_digits (n div 10) @ [digit_char (n mod 10)])"

declare dec_digits.simps [simp del]

definition py_int_str :: "int \<Rightarrow> string" where
  "py_int_str i = (if i < 0 then ''-'' @ dec_digits (nat (- i)) else dec_digits (nat i))"

text \<open>The format specification \<open>06d\<close> applied to a counter that starts at zero.\<close>

definition fmt06 :: "nat \<Rightarrow> string" where
  "fmt06 n = (let s = dec_digits n in replicate (6 - length s) (CHR ''0'') @ s)"

text \<open>
  \<open>repr\<close> of a string: single quotes unless the string holds a single quote and no
  double quote; backslash, the quote, tab, newline and carriage return are escaped,
  other unprintable characters are written \<open>\xhh\<close>.
\<close>

definition py_printable :: "char \<Rightarrow> bool" where
  "py_printable c =
     (let n = (of_char c :: nat) in (32 \<le> n \<and> n < 127) \<or> (161 \<le> n \<and> n \<noteq> 173))"

definition repr_char :: "char \<Rightarrow> char \<Rightarrow> string" where
  "repr_char q c =
     (if c = q \<or> c = CHR 0x5C then [CHR 0x5C, c]
      else if c = CHR 0x09 then [CHR 0x5C, CHR ''t'']
      else if c = CHR 0x0A then [CHR 0x5C, CHR ''n'']
      else if c = CHR 0x0D then [CHR 0x5C, CHR ''r'']
      else if py_printable c then [c]
      else [CHR 0x5C, CHR ''x'', digit_char (of_char c div 16), digit_char (of_char c mod 16)])"

definition py_repr_str :: "string \<Rightarrow> string" where
  "py_repr_str s =
     (let q = (if CHR 0x27 \<in> set s \<and> CHR 0x22 \<notin> set s then CHR 0x22 else CHR 0x27)
      in [q] @ concat (map (repr_char q) s) @ [q])"

fun py_repr :: "json \<Rightarrow> string" where
  "py_repr JNull = ''None''"
| "py_repr (JBool b) = (if b then ''True'' else ''False'')"
| "py_repr (JInt i) = py_int_str i"
| "py_repr (JStr s) = py_repr_str s"
| "py_repr (JArr xs) = ''['' @ py_join '', '' (map py_repr xs) @ '']''"
| "py_repr (JObj kvs) =
     ''{'' @ py_join '', '' (map (\<lambda>kv. py_repr_str (fst kv) @ '': '' @ py_repr (snd kv)) kvs) @ ''}''"

text \<open>\<open>str(x)\<close>, which is also what a replacement field of an f-string inserts.\<close>

fun py_str :: "json \<Rightarrow> string" where
  "py_str (JStr s) = s"
| "py_str v = py_repr v"

section \<open>Bulk encoder: \<open>to_bulk_actions\<close>\<close>

definition book_doc :: "dict \<Rightarrow> json" where
  "book_doc book_json = JObj [
     (''book_id'', dict_get book_json ''book_id''),
     (''source_uid'', dict_get_default book_json ''source_uid'' (JStr [])),
     (''title'', dict_get book_json ''title''),
     (''author'', dict_get_default book_json ''author'' (JStr [])),
     (''publisher'', dict_get_default book_json ''publisher'' (JStr [])),
     (''description'', dict_get_default book_json ''description'' (JStr [])),
     (''genres'', dict_get_default book_json ''genres'' (JStr [])),
     (''linkToBook'', dict_get_default book_json ''linkToBook'' (JStr [])),
     (''language'', dict_get book_json ''language''),
     (''suggest'', JObj [(''input'', JArr (
         (if py_truthy (dict_get book_json ''title'') then [dict_get book_json ''title''] else [])
       @ (if py_truthy (dict_get book_json ''author'') then [dict_get book_json ''author''] else [])))])]"

definition book_action :: "dict \<Rightarrow> string \<Rightarrow> json" where
  "book_action book_json index_books =
     JObj [(''index'', JObj [(''_index'', JStr index_books), (''_id'', dict_get book_json ''book_id'')])]"

definition chunk_action :: "string \<Rightarrow> json" where
  "chunk_action index_content = JObj [(''index'', JObj [(''_index'', JStr index_content)])]"

definition chunk_id :: "dict \<Rightarrow> nat \<Rightarrow> string" where
  "chunk_id book_json seq = py_str (dict_get book_json ''book_id'') @ ''-'' @ fmt06 seq"

definition chunk_doc :: "dict \<Rightarrow> nat \<Rightarrow> json \<Rightarrow> nat \<Rightarrow> nat \<Rightarrow> json \<Rightarrow> json" where
  "chunk_doc book_json seq chapter chapter_index paragraph_index para = JObj [
     (''book_id'', dict_get book_json ''book_id''),
     (''chunk_id'', JStr (chunk_id book_json seq)),
     (''chapter'', chapter),
     (''chapter_index'', JInt (int chapter_index)),
     (''paragraph_index'', JInt (int paragraph_index)),
     (''text'', para)]"

text \<open>
  The inner loop over \<open>enumerate(ch.get("paragraphs", []))\<close>; the state is the list
  \<open>actions\<close> and the counter \<open>seq\<close>.
\<close>

fun paragraph_loop ::
  "dict \<Rightarrow> string \<Rightarrow> json \<Rightarrow> nat \<Rightarrow> (nat \<times> json) list \<Rightarrow> json list \<times> nat \<Rightarrow> json list \<times> nat" where
  "paragraph_loop book_json index_content chapter chapter_index [] st = st"
| "paragraph_loop book_json index_content chapter chapter_index ((paragraph_index, para) # rest) (actions, seq) =
     paragraph_loop book_json index_content chapter chapter_index rest
       (actions @ [chunk_action index_content]
                @ [chunk_doc book_json seq chapter chapter_index paragraph_index para],
        seq + 1)"

text \<open>
  The outer loop over \<open>enumerate(book_json.get("chapters", []))\<close>. A chapter that is
  not a dict has no \<open>get\<close> (\<open>AttributeError\<close>); paragraphs that cannot be iterated
  raise \<open>TypeError\<close>. An exception leaves the function, and the lines collected so far
  are lost with it.
\<close>

fun chapter_loop ::
  "dict \<Rightarrow> string \<Rightarrow> (nat \<times> json) list \<Rightarrow> json list \<times> nat \<Rightarrow> py_error + (json list \<times> nat)" where
  "chapter_loop book_json index_content [] st = Inr st"
| "chapter_loop book_json index_content ((chapter_index, ch) # rest) st =
     (case ch of
        JObj d \<Rightarrow>
          (case py_iter (dict_get_default d ''paragraphs'' (JArr [])) of
             Inl e \<Rightarrow> Inl e
           | Inr paras \<Rightarrow>
               chapter_loop book_json index_content rest
                 (paragraph_loop book_json index_content (dict_get d ''chapter'') chapter_index
                    (enumerate 0 paras) st))
      | _ \<Rightarrow> Inl AttributeError)"

definition to_bulk_actions :: "dict \<Rightarrow> string \<Rightarrow> string \<Rightarrow> py_error + json list" where
  "to_bulk_actions book_json index_books index_content =
     (let actions = [] @ [book_action book_json index_books] @ [book_doc book_json]
      in case py_iter (dict_get_default book_json ''chapters'' (JArr [])) of
           Inl e \<Rightarrow> Inl e
         | Inr chapters \<Rightarrow>
             (case chapter_loop book_json index_content (enumerate 0 chapters) (actions, 0) of
                Inl e \<Rightarrow> Inl e
              | Inr (actions', seq) \<Rightarrow> Inr actions'))"

section \<open>Bulk encoder: \<open>process_json_objects\<close>\<close>

text \<open>\<open>v[k]\<close> for a string key \<open>k\<close>.\<close>

definition subscript :: "json \<Rightarrow> string \<Rightarrow> py_error + json" where
  "subscript v k =
     (case v of
        JObj d \<Rightarrow> (case map_of d k of None \<Rightarrow> Inl KeyError | Some x \<Rightarrow> Inr x)
      | _ \<Rightarrow> Inl TypeError)"

definition meta_index :: "json \<Rightarrow> py_error + json" where
  "meta_index meta =
     (case subscript meta ''index'' of Inl e \<Rightarrow> Inl e | Inr m \<Rightarrow> subscript m ''_index'')"

text \<open>
  The loop \<open>for i in range(0, len(actions), 2)\<close>. The two output lists are appended to
  in place, so what was appended before an exception stays; the result carries the
  exception, if any, next to the lists.
\<close>

fun route_loop ::
  "string \<Rightarrow> string \<Rightarrow> json list \<Rightarrow> json list \<times> json list
     \<Rightarrow> py_error option \<times> (json list \<times> json list)" where
  "route_loop index_books index_content [] st = (None, st)"
| "route_loop index_books index_content [meta] st = (Some IndexError, st)"
| "route_loop index_books index_content (meta # src # rest) (books_lines, content_lines) =
     (case meta_index meta of
        Inl e \<Rightarrow> (Some e, (books_lines, content_lines))
      | Inr idx \<Rightarrow>
          if idx = JStr index_books
          then route_loop index_books index_content rest
                 (books_lines @ [meta] @ [src], content_lines)
          else route_loop index_books index_content rest
                 (books_lines, content_lines @ [JObj [(''index'', JObj [(''_index'', JStr index_content)])]] @ [src]))"

text \<open>
  One turn of \<open>for name, data in json_iter\<close>: the body runs under \<open>try\<close>, an exception
  is printed and the loop goes on. \<open>data\<close> is whatever \<open>json.loads\<close> produced; only a
  dict has the \<open>get\<close> that \<open>to_bulk_actions\<close> calls first.
\<close>

definition process_one ::
  "string \<Rightarrow> string \<Rightarrow> json \<Rightarrow> json list \<times> json list \<Rightarrow> json list \<times> json list" where
  "process_one index_books index_content data st =
     (case data of
        JObj book_json \<Rightarrow>
          (case to_bulk_actions book_json index_books index_content of
             Inl e \<Rightarrow> st
           | Inr actions \<Rightarrow> snd (route_loop index_books index_content actions st))
      | _ \<Rightarrow> st)"

fun process_loop ::
  "string \<Rightarrow> string \<Rightarrow> (string \<times> json) list \<Rightarrow> json list \<times> json list \<Rightarrow> json list \<times> json list" where
  "process_loop index_books index_content [] st = st"
| "process_loop index_books index_content ((name, data) # rest) st =
     process_loop index_books index_content rest (process_one index_books index_content data st)"

definition process_json_objects ::
  "string \<Rightarrow> string \<Rightarrow> (string \<times> json) list \<Rightarrow> json list \<times> json list" where
  "process_json_objects index_books index_content json_iter =
     process_loop index_books index_content json_iter ([], [])"

section \<open>Reading the encoder's output\<close>

text \<open>
  What the loops iterate: the chapters of a book, the paragraphs of a chapter. A book
  can be encoded when both iterations are possible for every chapter; every document
  written by the extraction step (chapters a list of objects, paragraphs a list of
  strings) is of this kind.
\<close>

definition chapter_paragraphs :: "json \<Rightarrow> py_error + json list" where
  "chapter_paragraphs ch =
     (case ch of
        JObj d \<Rightarrow> py_iter (dict_get_default d ''paragraphs'' (JArr []))
      | _ \<Rightarrow> Inl AttributeError)"

definition book_chapters :: "dict \<Rightarrow> py_error + json list" where
  "book_chapters book_json = py_iter (dict_get_default book_json ''chapters'' (JArr []))"

definition paragraphs_of :: "json \<Rightarrow> json list" where
  "paragraphs_of ch = (case chapter_paragraphs ch of Inr ps \<Rightarrow> ps | Inl e \<Rightarrow> [])"

definition chapters_of :: "dict \<Rightarrow> json list" where
  "chapters_of book_json = (case book_chapters book_json of Inr chs \<Rightarrow> chs | Inl e \<Rightarrow> [])"

definition chapter_ok :: "json \<Rightarrow> bool" where
  "chapter_ok ch = (case chapter_paragraphs ch of Inr ps \<Rightarrow> True | Inl e \<Rightarrow> False)"

definition encodable :: "dict \<Rightarrow> bool" where
  "encodable book_json =
     (case book_chapters book_json of Inr chs \<Rightarrow> list_all chapter_ok chs | Inl e \<Rightarrow> False)"

definition chapter_label :: "json \<Rightarrow> json" where
  "chapter_label ch = (case ch of JObj d \<Rightarrow> dict_get d ''chapter'' | _ \<Rightarrow> JNull)"

text \<open>
  The paragraphs of a book in (section, paragraph) order, each with its chapter index,
  chapter label and paragraph index; and the chunk lines for them, numbered from \<open>seq\<close>.
\<close>

definition flat_pairs :: "(nat \<times> json) list \<Rightarrow> (nat \<times> json \<times> nat \<times> json) list" where
  "flat_pairs cs =
     concat (map (\<lambda>(ci, ch). map (\<lambda>(pi, para). (ci, chapter_label ch, pi, para))
                                  (enumerate 0 (paragraphs_of ch))) cs)"

definition flat_paragraphs :: "dict \<Rightarrow> (nat \<times> json \<times> nat \<times> json) list" where
  "flat_paragraphs book_json = flat_pairs (enumerate 0 (chapters_of book_json))"

definition chunk_lines ::
  "dict \<Rightarrow> string \<Rightarrow> nat \<Rightarrow> (nat \<times> json \<times> nat \<times> json) list \<Rightarrow> json list" where
  "chunk_lines book_json index_content seq fps =
     concat (map (\<lambda>(k, (ci, lab, pi, para)).
                    [chunk_action index_content, chunk_doc book_json k lab ci pi para])
                 (enumerate seq fps))"

definition paragraph_count :: "dict \<Rightarrow> nat" where
  "paragraph_count book_json = sum_list (map (\<lambda>ch. length (paragraphs_of ch)) (chapters_of book_json))"

text \<open>The source lines and the action lines of a stream of pairs, and one field of a line.\<close>

fun sources :: "json list \<Rightarrow> json list" where
  "sources (a # s # rest) = s # sources rest"
| "sources _ = []"

fun metas :: "json list \<Rightarrow> json list" where
  "metas (a # s # rest) = a # metas rest"
| "metas _ = []"

definition field :: "json \<Rightarrow> string \<Rightarrow> json option" where
  "field v k = (case v of JObj d \<Rightarrow> map_of d k | _ \<Rightarrow> None)"

text \<open>
  An action metadata line is an object with the single key \<open>index\<close> over an object; a
  source line is an object without that key. A stream alternates when it is a sequence
  of pairs, action line first.
\<close>

definition is_action :: "json \<Rightarrow> bool" where
  "is_action v = (case v of JObj [(k, JObj m)] \<Rightarrow> k = ''index'' | _ \<Rightarrow> False)"

definition is_source :: "json \<Rightarrow> bool" where
  "is_source v = (case v of JObj d \<Rightarrow> map_of d ''index'' = None | _ \<Rightarrow> False)"

fun alternates :: "json list \<Rightarrow> bool" where
  "alternates [] = True"
| "alternates [a] = False"
| "alternates (a # s # rest) = (is_action a \<and> is_source s \<and> alternates rest)"

text \<open>
  The lines \<open>to_bulk_actions\<close> gives for one item of \<open>json_iter\<close>, none when it raises;
  the part of them that goes to the books stream and the part that goes to the content
  stream.
\<close>

definition encoded_lines :: "string \<Rightarrow> string \<Rightarrow> json \<Rightarrow> json list" where
  "encoded_lines index_books index_content data =
     (case data of
        JObj book_json \<Rightarrow>
          (case to_bulk_actions book_json index_books index_content of
             Inr actions \<Rightarrow> actions
           | Inl e \<Rightarrow> [])
      | _ \<Rightarrow> [])"

definition books_part :: "string \<Rightarrow> string \<Rightarrow> json \<Rightarrow> json list" where
  "books_part index_books index_content data =
     (if index_content = index_books then encoded_lines index_books index_content data
      else take 2 (encoded_lines index_books index_content data))"

definition content_part :: "string \<Rightarrow> string \<Rightarrow> json \<Rightarrow> json list" where
  "content_part index_books index_content data =
     (if index_content = index_books then []
      else drop 2 (encoded_lines index_books index_content data))"

text \<open>A small document of two chapters and three paragraphs, used to exercise the encoder.\<close>

definition sample_book :: dict where
  "sample_book =
     [(''book_id'', JStr ''ab''),
      (''title'', JStr ''T''),
      (''chapters'', JArr
         [JObj [(''chapter'', JStr ''c1''), (''paragraphs'', JArr [JStr ''p1'', JStr ''p2''])],
          JObj [(''chapter'', JStr ''c2''), (''paragraphs'', JArr [JStr ''p3''])]])]"

text \<open>The \<open>_id\<close> of an index action line, if it carries one.\<close>

definition action_id :: "json \<Rightarrow> json option" where
  "action_id a = (case field a ''index'' of Some m \<Rightarrow> field m ''_id'' | None \<Rightarrow> None)"

section \<open>Embedding merge: \<open>_iter_ndjson_docs\<close> and \<open>embed_from_ndjson\<close>\<close>

text \<open>\<open>k in v\<close> for a string \<open>k\<close>: a key of a dict, an element of a list, a substring of a string.\<close>

definition py_in_str :: "string \<Rightarrow> string \<Rightarrow> bool" where
  "py_in_str sub s = list_ex (\<lambda>i. take (length sub) (drop i s) = sub) [0..<Suc (length s)]"

definition py_contains :: "json \<Rightarrow> string \<Rightarrow> py_error + bool" where
  "py_contains v k =
     (case v of
        JObj d \<Rightarrow> Inr (map_of d k \<noteq> None)
      | JArr xs \<Rightarrow> Inr (JStr k \<in> set xs)
      | JStr s \<Rightarrow> Inr (py_in_str k s)
      | _ \<Rightarrow> Inl TypeError)"

text \<open>
  The generator \<open>_iter_ndjson_docs\<close> over the parsed non-blank lines of the file. Its
  state is \<open>expect_src\<close> and \<open>meta\<close>; the result is the list of pairs it yields, and the
  exception that ends it early, if any.
\<close>

fun iter_loop ::
  "json list \<Rightarrow> bool \<times> json \<Rightarrow> (json \<times> json) list \<Rightarrow> (json \<times> json) list \<times> py_error option" where
  "iter_loop [] st yielded = (yielded, None)"
| "iter_loop (obj # rest) (expect_src, meta) yielded =
     (case py_contains obj ''index'' of
        Inl e \<Rightarrow> (yielded, Some e)
      | Inr True \<Rightarrow> iter_loop rest (True, obj) yielded
      | Inr False \<Rightarrow>
          if \<not> expect_src then iter_loop rest (expect_src, meta) yielded
          else iter_loop rest (False, meta) (yielded @ [(meta, obj)]))"

definition iter_ndjson_docs :: "json list \<Rightarrow> (json \<times> json) list \<times> py_error option" where
  "iter_ndjson_docs lines = iter_loop lines (False, JNull) []"

text \<open>
  The body of the loop of \<open>embed_from_ndjson\<close> for one pair: the lines it appends to
  \<open>to_update\<close> (none after \<open>continue\<close>), or the exception it raises. The embedding model
  is a function \<open>encode\<close> from the text to the JSON list of the vector; \<open>index_override\<close>
  is \<open>None\<close> or a string. \<open>src[target_field] = vec\<close> replaces the value of an existing key
  in place and appends a new key at the end, which is \<open>AList.update\<close>.
\<close>

definition resolve_idx :: "string option \<Rightarrow> json \<Rightarrow> py_error + json" where
  "resolve_idx index_override meta =
     (case index_override of
        Some s \<Rightarrow> if s \<noteq> [] then Inr (JStr s) else meta_index meta
      | None \<Rightarrow> meta_index meta)"

definition src_get :: "json \<Rightarrow> string \<Rightarrow> py_error + json" where
  "src_get src source_field =
     (case src of JObj d \<Rightarrow> Inr (dict_get_default d source_field (JStr [])) | _ \<Rightarrow> Inl AttributeError)"

definition embed_pair ::
  "(json \<Rightarrow> json) \<Rightarrow> string option \<Rightarrow> string \<Rightarrow> string \<Rightarrow> json \<Rightarrow> json \<Rightarrow> py_error + json list" where
  "embed_pair encode index_override source_field target_field meta src =
     (case resolve_idx index_override meta of
        Inl e \<Rightarrow> Inl e
      | Inr idx \<Rightarrow>
     (case subscript meta ''index'' of
        Inl e \<Rightarrow> Inl e
      | Inr m \<Rightarrow>
     (case py_contains m ''_id'' of
        Inl e \<Rightarrow> Inl e
      | Inr False \<Rightarrow>
          (case src_get src source_field of
             Inl e \<Rightarrow> Inl e
           | Inr text \<Rightarrow>
               if \<not> py_truthy text then Inr []
               else (case src of
                       JObj d \<Rightarrow>
                         Inr ([JObj [(''index'', JObj [(''_index'', idx)])]]
                              @ [JObj (AList.update target_field (encode text) d)])
                     | _ \<Rightarrow> Inl AttributeError))
      | Inr True \<Rightarrow>
          (case subscript m ''_id'' of
             Inl e \<Rightarrow> Inl e
           | Inr ident \<Rightarrow>
               (case src_get src source_field of
                  Inl e \<Rightarrow> Inl e
                | Inr text \<Rightarrow>
                    if \<not> py_truthy text then Inr []
                    else Inr ([JObj [(''update'', JObj [(''_index'', idx), (''_id'', ident)])]]
                              @ [JObj [(''doc'', JObj [(target_field, encode text)])]]))))))"

text \<open>
  The loop with its batches: \<open>to_update\<close> is posted and emptied once it holds 1000 lines
  or more, and once more after the loop if it is not empty. The result is the list of
  posted batches; an exception ends the function before the last batch is posted.
\<close>

fun embed_loop ::
  "(json \<Rightarrow> json) \<Rightarrow> string option \<Rightarrow> string \<Rightarrow> string \<Rightarrow> (json \<times> json) list
     \<Rightarrow> json list \<times> json list list \<Rightarrow> py_error option \<times> (json list \<times> json list list)" where
  "embed_loop encode index_override source_field target_field [] st = (None, st)"
| "embed_loop encode index_override source_field target_field ((meta, src) # rest) (to_update, posted) =
     (case embed_pair encode index_override source_field target_field meta src of
        Inl e \<Rightarrow> (Some e, (to_update, posted))
      | Inr ls \<Rightarrow>
          if ls \<noteq> [] \<and> length (to_update @ ls) \<ge> 1000
          then embed_loop encode index_override source_field target_field rest
                 ([], posted @ [to_update @ ls])
          else embed_loop encode index_override source_field target_field rest
                 (to_update @ ls, posted))"

definition embed_from_ndjson ::
  "(json \<Rightarrow> json) \<Rightarrow> json list \<Rightarrow> string \<Rightarrow> string \<Rightarrow> string option
     \<Rightarrow> json list list \<times> py_error option" where
  "embed_from_ndjson encode lines source_field target_field index_override =
     (case iter_ndjson_docs lines of (pairs, stop) \<Rightarrow>
        (case embed_loop encode index_override source_field target_field pairs ([], []) of
           (Some e, (to_update, posted)) \<Rightarrow> (posted, Some e)
         | (None, (to_update, posted)) \<Rightarrow>
             (case stop of
                Some e \<Rightarrow> (posted, Some e)
              | None \<Rightarrow> (if to_update \<noteq> [] then posted @ [to_update] else posted, None))))"

text \<open>
  The lines one pair contributes, none when its turn of the loop raises; and a stand-in
  for the embedding model, used to exercise the loop.
\<close>

definition pair_lines ::
  "(json \<Rightarrow> json) \<Rightarrow> string option \<Rightarrow> string \<Rightarrow> string \<Rightarrow> json \<times> json \<Rightarrow> json list" where
  "pair_lines encode index_override source_field target_field p =
     (case embed_pair encode index_override source_field target_field (fst p) (snd p) of
        Inr ls \<Rightarrow> ls
      | Inl e \<Rightarrow> [])"

definition sample_encode :: "json \<Rightarrow> json" where
  "sample_encode text = JArr [JInt 1, JInt 2]"

section \<open>Strings of the extraction step\<close>

text \<open>
  Characters stand for code points below 256. Whitespace (\<open>str.strip\<close>, \<open>str.split\<close>, the
  regular expression class \<open>\s\<close>) and word characters (the class \<open>\w\<close> behind \<open>\b\<close>) are
  those of Python for these code points; \<open>str.title\<close> is modelled on the ASCII letters.
\<close>

definition py_isspace :: "char \<Rightarrow> bool" where
  "py_isspace c =
     (let n = (of_char c :: nat) in (9 \<le> n \<and> n \<le> 13) \<or> (28 \<le> n \<and> n \<le> 32) \<or> n = 133 \<or> n = 160)"

definition is_word_char :: "char \<Rightarrow> bool" where
  "is_word_char c =
     (let n = (of_char c :: nat)
      in (48 \<le> n \<and> n \<le> 57) \<or> (65 \<le> n \<and> n \<le> 90) \<or> n = 95 \<or> (97 \<le> n \<and> n \<le> 122)
         \<or> n \<in> set [170, 178, 179, 181, 185, 186, 188, 189, 190]
         \<or> (192 \<le> n \<and> n \<noteq> 215 \<and> n \<noteq> 247))"

definition py_strip :: "string \<Rightarrow> string" where
  "py_strip s = rev (dropWhile py_isspace (rev (dropWhile py_isspace s)))"

text \<open>\<open>s.split()\<close>: the maximal runs of characters that are not whitespace.\<close>

fun split_ws_loop :: "string \<Rightarrow> string \<Rightarrow> string list" where
  "split_ws_loop cur [] = (if cur = [] then [] else [cur])"
| "split_ws_loop cur (c # cs) =
     (if py_isspace c then (if cur = [] then split_ws_loop [] cs else cur # split_ws_loop [] cs)
      else split_ws_loop (cur @ [c]) cs)"

definition py_split_ws :: "string \<Rightarrow> string list" where
  "py_split_ws s = split_ws_loop [] s"

text \<open>\<open>s.split("\n\n")\<close>.\<close>

fun split_blank_loop :: "string \<Rightarrow> string \<Rightarrow> string list" where
  "split_blank_loop cur (a # b # rest) =
     (if a = CHR 0x0A \<and> b = CHR 0x0A then cur # split_blank_loop [] rest
      else split_blank_loop (cur @ [a]) (b # rest))"
| "split_blank_loop cur [a] = [cur @ [a]]"
| "split_blank_loop cur [] = [cur]"

definition py_split_blank :: "string \<Rightarrow> string list" where
  "py_split_blank s = split_blank_loop [] s"

text \<open>\<open>s.title()\<close>: a letter after a letter is lowered, a letter after anything else is raised.\<close>

definition ascii_lower :: string where
  "ascii_lower = ''abcdefghijklmnopqrstuvwxyz''"

definition ascii_upper :: string where
  "ascii_upper = ''ABCDEFGHIJKLMNOPQRSTUVWXYZ''"

definition to_upper :: "char \<Rightarrow> char" where
  "to_upper c = (case map_of (zip ascii_lower ascii_upper) c of Some u \<Rightarrow> u | None \<Rightarrow> c)"

definition to_lower :: "char \<Rightarrow> char" where
  "to_lower c = (case map_of (zip ascii_upper ascii_lower) c of Some l \<Rightarrow> l | None \<Rightarrow> c)"

fun title_loop :: "bool \<Rightarrow> string \<Rightarrow> string" where
  "title_loop previous_is_cased [] = []"
| "title_loop previous_is_cased (c # cs) =
     (if c \<in> set ascii_lower \<or> c \<in> set ascii_upper
      then (if previous_is_cased then to_lower c else to_upper c) # title_loop True cs
      else c # title_loop False cs)"

definition py_title :: "string \<Rightarrow> string" where
  "py_title s = title_loop False s"

subsection \<open>The two regular expressions of \<open>read_epub\<close>\<close>

text \<open>
  \<open>re.search(r"\b[Bb]y\s+([^\n,]+)", head)\<close>, giving \<open>m.group(1)\<close> of the leftmost match. At
  a position where \<open>By\<close> or \<open>by\<close> starts a word, \<open>\s+\<close> first takes all the whitespace
  and gives it back one character at a time (but never all of it) until the group,
  the longest run without newline and comma, is not empty.
\<close>

fun by_group :: "nat \<Rightarrow> string \<Rightarrow> string option" where
  "by_group 0 r = None"
| "by_group (Suc k) r =
     (let g = takeWhile (\<lambda>c. c \<noteq> CHR 0x0A \<and> c \<noteq> CHR '','') (drop (Suc k) r)
      in if g \<noteq> [] then Some g else by_group k r)"

definition match_by_at :: "bool \<Rightarrow> string \<Rightarrow> string option" where
  "match_by_at previous_is_word s =
     (case s of
        b # y # r \<Rightarrow>
          if \<not> previous_is_word \<and> (b = CHR ''B'' \<or> b = CHR ''b'') \<and> y = CHR ''y''
          then by_group (length (takeWhile py_isspace r)) r
          else None
      | _ \<Rightarrow> None)"

fun search_by_loop :: "bool \<Rightarrow> string \<Rightarrow> string option" where
  "search_by_loop previous_is_word [] = None"
| "search_by_loop previous_is_word (c # cs) =
     (case match_by_at previous_is_word (c # cs) of
        Some g \<Rightarrow> Some g
      | None \<Rightarrow> search_by_loop (is_word_char c) cs)"

definition search_by :: "string \<Rightarrow> string option" where
  "search_by head = search_by_loop False head"

text \<open>
  \<open>re.search(r"[Pp]ublisher:?\s*([^\n]+)", head)\<close>: after the word, the optional colon is
  tried taken first and left second; \<open>\s*\<close> gives whitespace back down to none.
\<close>

fun publisher_group :: "nat \<Rightarrow> string \<Rightarrow> string option" where
  "publisher_group 0 r =
     (let g = takeWhile (\<lambda>c. c \<noteq> CHR 0x0A) r in if g \<noteq> [] then Some g else None)"
| "publisher_group (Suc k) r =
     (let g = takeWhile (\<lambda>c. c \<noteq> CHR 0x0A) (drop (Suc k) r)
      in if g \<noteq> [] then Some g else publisher_group k r)"

definition publisher_ws :: "string \<Rightarrow> string option" where
  "publisher_ws r = publisher_group (length (takeWhile py_isspace r)) r"

definition publisher_tail :: "string \<Rightarrow> string option" where
  "publisher_tail r =
     (case r of
        c # r' \<Rightarrow>
          if c = CHR '':''
          then (case publisher_ws r' of Some g \<Rightarrow> Some g | None \<Rightarrow> publisher_ws r)
          else publisher_ws r
      | [] \<Rightarrow> publisher_ws r)"

definition match_publisher_at :: "string \<Rightarrow> string option" where
  "match_publisher_at s =
     (case s of
        p # rest \<Rightarrow>
          if (p = CHR ''P'' \<or> p = CHR ''p'') \<and> take 8 rest = ''ublisher''
          then publisher_tail (drop 8 rest)
          else None
      | [] \<Rightarrow> None)"

fun search_publisher :: "string \<Rightarrow> string option" where
  "search_publisher [] = None"
| "search_publisher (c # cs) =
     (case match_publisher_at (c # cs) of
        Some g \<Rightarrow> Some g
      | None \<Rightarrow> search_publisher cs)"

section \<open>Content extractor: \<open>extract_texts_from_item\<close>\<close>

text \<open>
  The tree that \<open>BeautifulSoup(item.get_content(), "lxml")\<close> gives: text strings and
  elements with their tag name and children, the soup being the list of its top-level
  nodes. \<open>find\<close> and \<open>find_all\<close> with a list of names go through the tree in document
  order (an element before its children, children from left to right) and take the
  elements whose name is in the list; \<open>get_text(sep, strip=True)\<close> joins the stripped,
  non-empty strings below a node.
\<close>

datatype node = Text string | Elem string "node list"

fun find_node :: "string list \<Rightarrow> node \<Rightarrow> node option"
  and find_nodes :: "string list \<Rightarrow> node list \<Rightarrow> node option" where
  "find_node names (Text s) = None"
| "find_node names (Elem tag children) =
     (if tag \<in> set names then Some (Elem tag children) else find_nodes names children)"
| "find_nodes names [] = None"
| "find_nodes names (n # ns) =
     (case find_node names n of Some h \<Rightarrow> Some h | None \<Rightarrow> find_nodes names ns)"

fun find_all_node :: "string list \<Rightarrow> node \<Rightarrow> node list"
  and find_all_nodes :: "string list \<Rightarrow> node list \<Rightarrow> node list" where
  "find_all_node names (Text s) = []"
| "find_all_node names (Elem tag children) =
     (if tag \<in> set names then [Elem tag children] else []) @ find_all_nodes names children"
| "find_all_nodes names [] = []"
| "find_all_nodes names (n # ns) = find_all_node names n @ find_all_nodes names ns"

fun node_strings :: "node \<Rightarrow> string list"
  and nodes_strings :: "node list \<Rightarrow> string list" where
  "node_strings (Text s) = [s]"
| "node_strings (Elem tag children) = nodes_strings children"
| "nodes_strings [] = []"
| "nodes_strings (n # ns) = node_strings n @ nodes_strings ns"

definition get_text :: "string \<Rightarrow> node list \<Rightarrow> string" where
  "get_text sep ns = py_join sep (filter (\<lambda>s. s \<noteq> []) (map py_strip (nodes_strings ns)))"

record epub_item =
  item_name :: string
  item_is_document :: bool
  item_content :: "node list"

definition extract_texts_from_item :: "epub_item \<Rightarrow> string \<times> string list" where
  "extract_texts_from_item item =
     (let soup = item_content item;
          chapter = (case find_nodes [''h1'', ''h2'', ''h3'', ''title''] soup of
                       Some h \<Rightarrow> Some (get_text '' '' [h])
                     | None \<Rightarrow> None);
          texts = filter (\<lambda>txt. txt \<noteq> [])
                    (map (\<lambda>tag. get_text [CHR 0x0A] [tag]) (find_all_nodes [''p'', ''li'', ''pre''] soup));
          texts = (if texts = []
                   then (let body = (case find_nodes [''body''] soup of
                                       Some b \<Rightarrow> get_text [CHR 0x0A] [b]
                                     | None \<Rightarrow> get_text [CHR 0x0A] soup);
                             chunks = map py_strip (filter (\<lambda>b. py_strip b \<noteq> []) (py_split_blank body))
                         in texts @ chunks)
                   else texts)
      in (case chapter of
            Some c \<Rightarrow> if c \<noteq> [] then c else item_name item
          | None \<Rightarrow> item_name item,
          texts))"

text \<open>
  The reading of the label that takes the heading levels in priority order: an \<open>h1\<close>
  anywhere before any \<open>h2\<close>, then \<open>h3\<close>, then \<open>title\<close>. It is compared with the label of
  \<open>extract_texts_from_item\<close> below.
\<close>

definition label_by_priority :: "epub_item \<Rightarrow> string" where
  "label_by_priority item =
     (let soup = item_content item;
          h = (case find_nodes [''h1''] soup of Some h \<Rightarrow> Some h | None \<Rightarrow>
              (case find_nodes [''h2''] soup of Some h \<Rightarrow> Some h | None \<Rightarrow>
              (case find_nodes [''h3''] soup of Some h \<Rightarrow> Some h | None \<Rightarrow>
               find_nodes [''title''] soup)))
      in case h of
           Some h \<Rightarrow> if get_text '' '' [h] \<noteq> [] then get_text '' '' [h] else item_name item
         | None \<Rightarrow> item_name item)"

definition sample_item :: epub_item where
  "sample_item = \<lparr> item_name = ''ch1.xhtml'', item_is_document = True,
     item_content = [Elem ''html''
        [Elem ''head'' [Elem ''title'' [Text ''T'']],
         Elem ''body'' [Elem ''h1'' [Text ''Chapter 1''], Elem ''p'' [Text ''By Jane Q. Author, a novel'']]]] \<rparr>"

section \<open>SHA-1\<close>

text \<open>
  \<open>hashlib.sha1(data).hexdigest()\<close> on a list of bytes: padding to a multiple of 64
  bytes, 80 rounds on each block over 32-bit words, and the five state words in
  hexadecimal, 40 characters.
\<close>

type_synonym byte = "8 word"

definition sha1_pad :: "byte list \<Rightarrow> byte list" where
  "sha1_pad msg =
     msg @ [0x80] @ replicate ((119 - length msg mod 64) mod 64) 0
         @ map (\<lambda>i. ucast (drop_bit (8 * (7 - i)) (of_nat (8 * length msg) :: 64 word))) [0..<8]"

definition be_word :: "byte list \<Rightarrow> 32 word" where
  "be_word bs = foldl (\<lambda>w b. push_bit 8 w OR ucast b) 0 bs"

fun words_of :: "nat \<Rightarrow> byte list \<Rightarrow> 32 word list" where
  "words_of 0 bs = []"
| "words_of (Suc n) bs = be_word (take 4 bs) # words_of n (drop 4 bs)"

fun schedule :: "nat \<Rightarrow> 32 word list \<Rightarrow> 32 word list" where
  "schedule 0 ws = ws"
| "schedule (Suc n) ws =
     schedule n (ws @ [word_rotl 1 (ws ! (length ws - 3) XOR ws ! (length ws - 8)
                                     XOR ws ! (length ws - 14) XOR ws ! (length ws - 16))])"

type_synonym sha1_state = "32 word \<times> 32 word \<times> 32 word \<times> 32 word \<times> 32 word"

definition sha1_f :: "nat \<Rightarrow> 32 word \<Rightarrow> 32 word \<Rightarrow> 32 word \<Rightarrow> 32 word" where
  "sha1_f i b c d =
     (if i < 20 then (b AND c) OR (NOT b AND d)
      else if i < 40 then b XOR c XOR d
      else if i < 60 then (b AND c) OR (b AND d) OR (c AND d)
      else b XOR c XOR d)"

definition sha1_k :: "nat \<Rightarrow> 32 word" where
  "sha1_k i = (if i < 20 then 0x5A827999 else if i < 40 then 0x6ED9EBA1
               else if i < 60 then 0x8F1BBCDC else 0xCA62C1D6)"

definition sha1_round :: "sha1_state \<Rightarrow> nat \<times> 32 word \<Rightarrow> sha1_state" where
  "sha1_round st iw =
     (case st of (a, b, c, d, e) \<Rightarrow>
        (case iw of (i, w) \<Rightarrow>
           (word_rotl 5 a + sha1_f i b c d + e + sha1_k i + w, a, word_rotl 30 b, c, d)))"

definition sha1_block :: "sha1_state \<Rightarrow> byte list \<Rightarrow> sha1_state" where
  "sha1_block st block =
     (case st of (h0, h1, h2, h3, h4) \<Rightarrow>
        (case foldl sha1_round (h0, h1, h2, h3, h4) (enumerate 0 (schedule 64 (words_of 16 block))) of
           (a, b, c, d, e) \<Rightarrow> (h0 + a, h1 + b, h2 + c, h3 + d, h4 + e)))"

fun sha1_blocks :: "nat \<Rightarrow> sha1_state \<Rightarrow> byte list \<Rightarrow> sha1_state" where
  "sha1_blocks 0 st bs = st"
| "sha1_blocks (Suc n) st bs = sha1_blocks n (sha1_block st (take 64 bs)) (drop 64 bs)"

definition hex_word :: "32 word \<Rightarrow> string" where
  "hex_word w = map (\<lambda>i. ''0123456789abcdef'' ! unat (drop_bit (4 * (7 - i)) w AND 15)) [0..<8]"

definition sha1_hexdigest :: "byte list \<Rightarrow> string" where
  "sha1_hexdigest msg =
     (case sha1_blocks (length (sha1_pad msg) div 64)
             (0x67452301, 0xEFCDAB89, 0x98BADCFE, 0x10325476, 0xC3D2E1F0) (sha1_pad msg) of
        (h0, h1, h2, h3, h4) \<Rightarrow> concat (map hex_word [h0, h1, h2, h3, h4]))"

text \<open>\<open>s.encode("utf-8")\<close> for code points below 256: one byte below 128, two bytes from there on.\<close>

definition utf8_encode :: "string \<Rightarrow> byte list" where
  "utf8_encode s =
     concat (map (\<lambda>c. let n = (of_char c :: nat)
                       in if n < 128 then [of_nat n] else [of_nat (192 + n div 64), of_nat (128 + n mod 64)]) s)"

section \<open>Identity deriver: \<open>_pick_stable_id\<close>\<close>

text \<open>
  The book as \<open>epub.read_epub\<close> hands it over: its \<open>uid\<close> attribute (\<open>None\<close> or a string),
  its metadata by namespace and name, each entry a pair of a value (\<open>None\<close> for an element
  without text) and a dict of attributes, and its items. \<open>get_metadata\<close> gives the empty
  list for a name that is not there, as the \<open>try\<close> blocks around it do.
\<close>

type_synonym meta_entry = "string option \<times> (string \<times> string) list"

record epub_book =
  book_uid :: "string option"
  book_metadata :: "((string \<times> string) \<times> meta_entry list) list"
  book_items :: "epub_item list"

definition get_metadata :: "epub_book \<Rightarrow> string \<Rightarrow> string \<Rightarrow> meta_entry list" where
  "get_metadata book ns key =
     (case map_of (book_metadata book) (ns, key) of None \<Rightarrow> [] | Some pairs \<Rightarrow> pairs)"

text \<open>\<open>str(p[0])\<close>: the value itself, or the word \<open>None\<close>.\<close>

definition entry_str :: "meta_entry \<Rightarrow> string" where
  "entry_str p = (case fst p of Some s \<Rightarrow> s | None \<Rightarrow> ''None'')"

definition str_truthy :: "string option \<Rightarrow> bool" where
  "str_truthy v = (case v of Some s \<Rightarrow> s \<noteq> [] | None \<Rightarrow> False)"

text \<open>The loop of \<open>_pick_stable_id\<close>; \<open>Inl\<close> is the \<open>return val\<close> inside it.\<close>

fun pick_loop :: "string option \<Rightarrow> meta_entry list \<Rightarrow> string option \<Rightarrow> string + string option" where
  "pick_loop uid_attr [] first_val = Inr first_val"
| "pick_loop uid_attr (p # pairs) first_val =
     (let val = py_strip (entry_str p);
          attrs = snd p;
          first_val = (if \<not> str_truthy first_val \<and> val \<noteq> [] then Some val else first_val)
      in if str_truthy uid_attr \<and> map_of attrs ''id'' = uid_attr \<and> val \<noteq> [] then Inl val
         else pick_loop uid_attr pairs first_val)"

definition pick_stable_id :: "epub_book \<Rightarrow> byte list \<Rightarrow> string" where
  "pick_stable_id book raw =
     (case pick_loop (book_uid book) (get_metadata book ''DC'' ''identifier'') None of
        Inl val \<Rightarrow> val
      | Inr first_val \<Rightarrow>
          (case first_val of
             Some v \<Rightarrow> if v \<noteq> [] then v else sha1_hexdigest raw
           | None \<Rightarrow> sha1_hexdigest raw))"




section \<open>Metadata resolver and document assembler: \<open>read_epub\<close>\<close>

fun meta_values_loop :: "meta_entry list \<Rightarrow> string list \<Rightarrow> string list" where
  "meta_values_loop [] vals = vals"
| "meta_values_loop (p # pairs) vals =
     (case fst p of
        Some s \<Rightarrow> meta_values_loop pairs (vals @ [py_strip s])
      | None \<Rightarrow> meta_values_loop pairs vals)"

definition meta_values :: "epub_book \<Rightarrow> string \<Rightarrow> string \<Rightarrow> string list" where
  "meta_values book ns key = meta_values_loop (get_metadata book ns key) []"

definition essential_meta :: "(string \<times> string \<times> string) list" where
  "essential_meta =
     [(''DC'', ''title'', ''title''),
      (''DC'', ''creator'', ''authors''),
      (''DC'', ''publisher'', ''publisher''),
      (''DC'', ''language'', ''language''),
      (''DC'', ''description'', ''description''),
      (''DC'', ''subject'', ''genres'')]"

text \<open>\<open>data.setdefault(k, v)\<close>; \<open>data[k] = v\<close> is \<open>AList.update\<close> and \<open>del data[k]\<close> is \<open>AList.delete\<close>.\<close>

definition setdefault :: "string \<Rightarrow> json \<Rightarrow> dict \<Rightarrow> dict" where
  "setdefault k v d = (case map_of d k of None \<Rightarrow> d @ [(k, v)] | Some x \<Rightarrow> d)"

text \<open>The loop \<open>for ns, k, field in essential_meta\<close> (\<open>field_name\<close> stands for \<open>field\<close>).\<close>

fun meta_loop :: "epub_book \<Rightarrow> (string \<times> string \<times> string) list \<Rightarrow> dict \<Rightarrow> dict" where
  "meta_loop book [] data = data"
| "meta_loop book ((ns, k, field_name) # rest) data =
     (let vals = meta_values book ns k
      in meta_loop book rest
           (if field_name = ''authors'' then AList.update field_name (JArr (map JStr vals)) data
            else if field_name = ''genres''
              then AList.update field_name (JStr (if vals \<noteq> [] then py_join '', '' vals else [])) data
            else (case vals of v # vs \<Rightarrow> AList.update field_name (JStr v) data | [] \<Rightarrow> data)))"

definition json_strings :: "json list \<Rightarrow> string list" where
  "json_strings xs = concat (map (\<lambda>x. case x of JStr s \<Rightarrow> [s] | _ \<Rightarrow> []) xs)"

text \<open>Lines 101 to 118: the structured fields and the joined author.\<close>

definition structured_fields :: "string \<Rightarrow> epub_book \<Rightarrow> dict" where
  "structured_fields stem book =
     (let data = [(''book_id'', JStr stem), (''chapters'', JArr [])];
          data = meta_loop book essential_meta data
      in case map_of data ''authors'' of
           Some (JArr authors) \<Rightarrow>
             AList.update ''author''
               (JStr (py_join '', '' (filter (\<lambda>a. a \<noteq> []) (json_strings authors)))) data
         | _ \<Rightarrow> setdefault ''author'' (JStr []) data)"

text \<open>Lines 120 to 123: \<open>source_uid\<close> and the \<open>book_id\<close> derived from it.\<close>

definition derive_book_id :: "string \<Rightarrow> string" where
  "derive_book_id source_uid = take 16 (sha1_hexdigest (utf8_encode source_uid))"

definition identity_fields :: "epub_book \<Rightarrow> byte list \<Rightarrow> dict \<Rightarrow> dict" where
  "identity_fields book raw data =
     (let source_uid = pick_stable_id book raw;
          data = AList.update ''source_uid'' (JStr source_uid) data
      in AList.update ''book_id'' (JStr (derive_book_id source_uid)) data)"

text \<open>Lines 125 to 139: the defaults, the title, and the removal of \<open>authors\<close>.\<close>

definition default_fields :: "string \<Rightarrow> epub_book \<Rightarrow> dict \<Rightarrow> dict" where
  "default_fields stem book data =
     (let data = setdefault ''publisher'' (JStr []) data;
          data = setdefault ''genres'' (JStr []) data;
          data = setdefault ''linkToBook'' (JStr []) data;
          data = (if \<not> py_truthy (dict_get data ''title'')
                  then (case meta_values book ''DC'' ''title'' of
                          t # ts \<Rightarrow> AList.update ''title'' (JStr t) data
                        | [] \<Rightarrow> AList.update ''title'' (JStr stem) data)
                  else data)
      in if map_of data ''authors'' \<noteq> None then AList.delete ''authors'' data else data)"

text \<open>
  Lines 141 to 148: the chapters. The list \<open>data["chapters"]\<close> is appended to in place;
  the model collects the chapters as pairs of label and paragraphs and stores their
  JSON form under the key, which keeps its place in the dict.
\<close>

fun chapters_loop :: "epub_item list \<Rightarrow> (string \<times> string list) list \<Rightarrow> (string \<times> string list) list" where
  "chapters_loop [] chapters = chapters"
| "chapters_loop (item # items) chapters =
     (if item_is_document item
      then (case extract_texts_from_item item of
              (chapter, texts) \<Rightarrow>
                if texts \<noteq> [] then chapters_loop items (chapters @ [(chapter, texts)])
                else chapters_loop items chapters)
      else chapters_loop items chapters)"

definition book_chapter_list :: "epub_book \<Rightarrow> (string \<times> string list) list" where
  "book_chapter_list book = chapters_loop (book_items book) []"

definition chapter_json :: "string \<times> string list \<Rightarrow> json" where
  "chapter_json ch = JObj [(''chapter'', JStr (fst ch)), (''paragraphs'', JArr (map JStr (snd ch)))]"

definition chapter_fields :: "(string \<times> string list) list \<Rightarrow> dict \<Rightarrow> dict" where
  "chapter_fields chapters data = AList.update ''chapters'' (JArr (map chapter_json chapters)) data"

text \<open>Lines 150 to 156: the description from the leading paragraphs.\<close>

definition description_fallback :: "(string \<times> string list) list \<Rightarrow> dict \<Rightarrow> dict" where
  "description_fallback chapters data =
     (if \<not> py_truthy (dict_get data ''description'')
      then (let paras = concat (map (\<lambda>ch. take 3 (snd ch)) (take 3 chapters));
                joined = py_strip (py_join [CHR 0x0A, CHR 0x0A] paras)
            in if joined \<noteq> [] then AList.update ''description'' (JStr (take 2000 joined)) data
               else data)
      else data)"

text \<open>Lines 158 to 167: author and publisher from the text of the first chapter.\<close>

definition author_from_text :: "(string \<times> string list) list \<Rightarrow> dict \<Rightarrow> dict" where
  "author_from_text chapters data =
     (case chapters of
        ch # rest \<Rightarrow>
          if \<not> py_truthy (dict_get data ''author'')
          then (let head = py_join [CHR 0x0A] (take 10 (snd ch))
                in case search_by head of
                     Some g \<Rightarrow> AList.update ''author'' (JStr (py_strip g)) data
                   | None \<Rightarrow> data)
          else data
      | [] \<Rightarrow> data)"

definition publisher_from_text :: "(string \<times> string list) list \<Rightarrow> dict \<Rightarrow> dict" where
  "publisher_from_text chapters data =
     (case chapters of
        ch # rest \<Rightarrow>
          if \<not> py_truthy (dict_get data ''publisher'')
          then (let head = py_join [CHR 0x0A] (take 20 (snd ch))
                in case search_publisher head of
                     Some g \<Rightarrow> AList.update ''publisher'' (JStr (py_strip g)) data
                   | None \<Rightarrow> data)
          else data
      | [] \<Rightarrow> data)"

text \<open>Lines 169 to 179: the author from the file name and the publisher from its marker.\<close>

definition author_slug :: "string \<Rightarrow> string" where
  "author_slug stem =
     py_strip (map (\<lambda>c. if c = CHR ''-'' then CHR '' '' else c) (takeWhile (\<lambda>c. c \<noteq> CHR ''_'') stem))"

definition author_from_stem :: "string \<Rightarrow> dict \<Rightarrow> dict" where
  "author_from_stem stem data =
     (if \<not> py_truthy (dict_get data ''author'')
      then (if author_slug stem \<noteq> [] \<and> length (py_split_ws (author_slug stem)) \<le> 4
            then AList.update ''author'' (JStr (py_title (author_slug stem))) data
            else data)
      else data)"

definition publisher_from_marker :: "(string \<times> string list) list \<Rightarrow> dict \<Rightarrow> dict" where
  "publisher_from_marker chapters data =
     (if \<not> py_truthy (dict_get data ''publisher'') \<and> chapters \<noteq> []
      then (let all_text = py_join [CHR 0x0A] (concat (map (\<lambda>ch. take 50 (snd ch)) (take 5 chapters)))
            in if py_in_str ''Standard Ebooks'' all_text
               then AList.update ''publisher'' (JStr ''Standard Ebooks'') data
               else data)
      else data)"

text \<open>
  \<open>read_epub\<close>, with the file name without its suffix (\<open>epub_path.stem\<close>), the parsed
  book and the bytes of the file.
\<close>

definition read_epub :: "string \<Rightarrow> epub_book \<Rightarrow> byte list \<Rightarrow> dict" where
  "read_epub stem book raw =
     (let data = structured_fields stem book;
          data = identity_fields book raw data;
          data = default_fields stem book data;
          chapters = book_chapter_list book;
          data = chapter_fields chapters data;
          data = description_fallback chapters data;
          data = author_from_text chapters data;
          data = publisher_from_text chapters data;
          data = author_from_stem stem data
      in publisher_from_marker chapters data)"


definition sample_epub :: epub_book where
  "sample_epub = \<lparr> book_uid = None,
     book_metadata = [((''DC'', ''identifier''), [(Some ''urn:uuid:abc'', [])]),
                      ((''DC'', ''title''), [(Some ''T'', [])])],
     book_items = [sample_item] \<rparr>"


text \<open>
  The author in the words of the specification: the creators joined; if that is empty,
  the name after \<open>By\<close> or \<open>by\<close> in the first ten paragraphs of the first chapter; if that
  is empty, the title-cased slug of the file name when it has at most four words.
\<close>

definition author_by_rule :: "string \<Rightarrow> epub_book \<Rightarrow> string" where
  "author_by_rule stem book =
     (let joined = py_join '', '' (filter (\<lambda>a. a \<noteq> []) (meta_values book ''DC'' ''creator''));
          from_text =
            (if joined = []
             then (case book_chapter_list book of
                     ch # rest \<Rightarrow>
                       (case search_by (py_join [CHR 0x0A] (take 10 (snd ch))) of
                          Some g \<Rightarrow> py_strip g
                        | None \<Rightarrow> joined)
                   | [] \<Rightarrow> joined)
             else joined)
      in if from_text = []
         then (if author_slug stem \<noteq> [] \<and> length (py_split_ws (author_slug stem)) \<le> 4
               then py_title (author_slug stem)
               else from_text)
         else from_text)"

text \<open>A book whose first paragraph names the author after a capitalised \<open>BY\<close>.\<close>

definition shout_epub :: epub_book where
  "shout_epub = \<lparr> book_uid = None, book_metadata = [],
     book_items = [\<lparr> item_name = ''ch1.xhtml'', item_is_document = True,
                     item_content = [Elem ''body'' [Elem ''p'' [Text ''BY Jane Doe'']]] \<rparr>] \<rparr>"

section \<open>The encoder's output, in closed form\<close>

lemma paragraph_loop_eq:
  "paragraph_loop bj ic chapter ci ps (actions, seq) =
     (actions @ concat (map (\<lambda>(k, (pi, para)). [chunk_action ic, chunk_doc bj k chapter ci pi para])
                            (enumerate seq ps)),
      seq + length ps)"
  by (induction ps arbitrary: actions seq) auto

lemma enumerate_map:
  "enumerate n (map f xs) = map (\<lambda>(k, x). (k, f x)) (enumerate n xs)"
  by (induction xs arbitrary: n) auto

lemma chunk_lines_append:
  "chunk_lines bj ic seq (xs @ ys) =
     chunk_lines bj ic seq xs @ chunk_lines bj ic (seq + length xs) ys"
  by (simp add: chunk_lines_def enumerate_append_eq)

lemma chunk_lines_Nil: "chunk_lines bj ic seq [] = []"
  by (simp add: chunk_lines_def)

lemma chunk_lines_Cons:
  "chunk_lines bj ic seq ((ci, lab, pi, para) # fps) =
     chunk_action ic # chunk_doc bj seq lab ci pi para # chunk_lines bj ic (Suc seq) fps"
  by (simp add: chunk_lines_def)

lemma paragraph_loop_chunk_lines:
  "paragraph_loop bj ic lab ci (enumerate 0 paras) (actions, seq) =
     (actions @ chunk_lines bj ic seq (map (\<lambda>(pi, para). (ci, lab, pi, para)) (enumerate 0 paras)),
      seq + length paras)"
  by (simp add: paragraph_loop_eq chunk_lines_def enumerate_map comp_def case_prod_unfold)

lemma flat_pairs_Cons:
  "flat_pairs ((ci, ch) # cs) =
     map (\<lambda>(pi, para). (ci, chapter_label ch, pi, para)) (enumerate 0 (paragraphs_of ch))
     @ flat_pairs cs"
  by (simp add: flat_pairs_def)

lemma chapter_loop_ok:
  "list_all chapter_ok (map snd cs) \<Longrightarrow>
   chapter_loop bj ic cs (actions, seq) =
     Inr (actions @ chunk_lines bj ic seq (flat_pairs cs), seq + length (flat_pairs cs))"
proof (induction cs arbitrary: actions seq)
  case Nil
  then show ?case by (simp add: flat_pairs_def chunk_lines_def)
next
  case (Cons c cs)
  obtain ci ch where c: "c = (ci, ch)" by (cases c)
  from Cons.prems c have ok: "chapter_ok ch" and rest: "list_all chapter_ok (map snd cs)"
    by simp_all
  from ok obtain d paras where ch: "ch = JObj d"
    and it: "py_iter (dict_get_default d ''paragraphs'' (JArr [])) = Inr paras"
    by (auto simp: chapter_ok_def chapter_paragraphs_def split: json.splits sum.splits)
  have po: "paragraphs_of ch = paras" and lab: "chapter_label ch = dict_get d ''chapter''"
    by (simp_all add: paragraphs_of_def chapter_paragraphs_def chapter_label_def ch it)
  show ?case
    by (simp add: c ch it paragraph_loop_chunk_lines Cons.IH [OF rest] flat_pairs_Cons
        chunk_lines_append po [unfolded ch] lab [unfolded ch])
qed

lemma chapter_loop_err:
  "\<not> list_all chapter_ok (map snd cs) \<Longrightarrow> \<exists>e. chapter_loop bj ic cs st = Inl e"
proof (induction cs arbitrary: st)
  case Nil
  then show ?case by simp
next
  case (Cons c cs)
  obtain ci ch where c: "c = (ci, ch)" by (cases c)
  show ?case
  proof (cases "chapter_ok ch")
    case True
    with Cons.prems c have "\<not> list_all chapter_ok (map snd cs)" by simp
    from Cons.IH [OF this] show ?thesis
      by (cases ch) (auto simp: c split: sum.splits)
  next
    case False
    then show ?thesis
      by (cases ch) (auto simp: c chapter_ok_def chapter_paragraphs_def split: sum.splits)
  qed
qed

lemma to_bulk_actions_ok:
  "encodable bj \<Longrightarrow>
   to_bulk_actions bj ib ic =
     Inr ([book_action bj ib, book_doc bj] @ chunk_lines bj ic 0 (flat_paragraphs bj))"
  by (auto simp: encodable_def to_bulk_actions_def book_chapters_def chapter_loop_ok
      flat_paragraphs_def chapters_of_def split: sum.splits)

lemma to_bulk_actions_err:
  assumes "\<not> encodable bj"
  shows "\<exists>e. to_bulk_actions bj ib ic = Inl e"
proof (cases "book_chapters bj")
  case (Inl e)
  then show ?thesis by (simp add: to_bulk_actions_def book_chapters_def)
next
  case (Inr chs)
  with assms have "\<not> list_all chapter_ok (map snd (enumerate 0 chs))"
    by (simp add: encodable_def)
  from chapter_loop_err [OF this]
  obtain e where "chapter_loop bj ic (enumerate 0 chs) ([book_action bj ib, book_doc bj], 0) = Inl e"
    by blast
  with Inr show ?thesis by (simp add: to_bulk_actions_def book_chapters_def)
qed

lemma sources_chunk_lines:
  "sources (chunk_lines bj ic seq fps) =
     map (\<lambda>(k, (ci, lab, pi, para)). chunk_doc bj k lab ci pi para) (enumerate seq fps)"
  by (induction fps arbitrary: seq) (auto simp: chunk_lines_Nil chunk_lines_Cons)

lemma metas_chunk_lines:
  "metas (chunk_lines bj ic seq fps) = replicate (length fps) (chunk_action ic)"
  by (induction fps arbitrary: seq) (auto simp: chunk_lines_Nil chunk_lines_Cons)

lemma map_snd_enumerate_fun:
  "map (\<lambda>c. f (snd c)) (enumerate n xs) = map f xs"
  by (induction xs arbitrary: n) auto

lemma length_flat_pairs:
  "length (flat_pairs cs) = sum_list (map (\<lambda>c. length (paragraphs_of (snd c))) cs)"
  by (induction cs) (auto simp: flat_pairs_def)

lemma length_flat_paragraphs: "length (flat_paragraphs bj) = paragraph_count bj"
proof -
  have "map (\<lambda>c. length (paragraphs_of (snd c))) (enumerate 0 chs)
          = map (\<lambda>ch. length (paragraphs_of ch)) chs" for chs
    by (rule map_snd_enumerate_fun)
  then show ?thesis
    by (simp add: flat_paragraphs_def paragraph_count_def length_flat_pairs)
qed

lemma texts_flat_pairs:
  "map (\<lambda>(ci, lab, pi, para). para) (flat_pairs cs) = concat (map (\<lambda>c. paragraphs_of (snd c)) cs)"
proof (induction cs)
  case Nil
  then show ?case by (simp add: flat_pairs_def)
next
  case (Cons c cs)
  obtain ci ch where c: "c = (ci, ch)" by (cases c)
  have "map (\<lambda>(ci, lab, pi, para). para)
          (map (\<lambda>(pi, para). (ci, chapter_label ch, pi, para)) (enumerate 0 (paragraphs_of ch)))
        = map snd (enumerate 0 (paragraphs_of ch))"
    by (simp add: case_prod_unfold comp_def)
  with Cons show ?case by (simp add: c flat_pairs_Cons)
qed

lemma texts_flat_paragraphs:
  "map (\<lambda>(ci, lab, pi, para). para) (flat_paragraphs bj) = concat (map paragraphs_of (chapters_of bj))"
proof -
  have "map (\<lambda>c. paragraphs_of (snd c)) (enumerate 0 chs) = map paragraphs_of chs" for chs
    by (rule map_snd_enumerate_fun)
  then show ?thesis by (simp add: flat_paragraphs_def texts_flat_pairs)
qed

lemma meta_index_book_action: "meta_index (book_action b ib) = Inr (JStr ib)"
  by (simp add: meta_index_def subscript_def book_action_def)

lemma meta_index_chunk_action: "meta_index (chunk_action ic) = Inr (JStr ic)"
  by (simp add: meta_index_def subscript_def chunk_action_def)

lemma route_chunk_lines:
  "route_loop ib ic (chunk_lines b ic seq fps) (B, C) =
     (None, if ic = ib then (B @ chunk_lines b ic seq fps, C)
            else (B, C @ chunk_lines b ic seq fps))"
proof (induction fps arbitrary: seq B C)
  case Nil
  then show ?case by (simp add: chunk_lines_Nil)
next
  case (Cons fp fps)
  obtain ci lab pi para where fp: "fp = (ci, lab, pi, para)" by (cases fp)
  have ca: "JObj [(''index'', JObj [(''_index'', JStr ic)])] = chunk_action ic"
    by (simp add: chunk_action_def)
  show ?case
  proof (cases "ic = ib")
    case True
    then show ?thesis
      using Cons.IH [of "Suc seq" "B @ [chunk_action ic, chunk_doc b seq lab ci pi para]" C]
      by (simp add: fp chunk_lines_Cons meta_index_chunk_action)
  next
    case False
    then show ?thesis
      using Cons.IH [of "Suc seq" B "C @ [chunk_action ic, chunk_doc b seq lab ci pi para]"]
      by (simp add: fp chunk_lines_Cons meta_index_chunk_action ca)
  qed
qed

lemma encoded_lines_encodable:
  "encodable b \<Longrightarrow>
   encoded_lines ib ic (JObj b) = [book_action b ib, book_doc b] @ chunk_lines b ic 0 (flat_paragraphs b)"
  by (simp add: encoded_lines_def to_bulk_actions_ok)

lemma encoded_lines_not_encodable: "\<not> encodable b \<Longrightarrow> encoded_lines ib ic (JObj b) = []"
  using to_bulk_actions_err [of b ib ic] by (auto simp: encoded_lines_def)

lemma process_one_eq:
  "process_one ib ic data (B, C) = (B @ books_part ib ic data, C @ content_part ib ic data)"
proof (cases data)
  case (JObj b)
  show ?thesis
  proof (cases "encodable b")
    case True
    then show ?thesis
      by (simp add: JObj process_one_def to_bulk_actions_ok books_part_def content_part_def
          encoded_lines_encodable meta_index_book_action route_chunk_lines)
  next
    case False
    from to_bulk_actions_err [OF this, of ib ic] obtain e where "to_bulk_actions b ib ic = Inl e" ..
    then show ?thesis
      by (simp add: JObj process_one_def books_part_def content_part_def
          encoded_lines_not_encodable [OF False])
  qed
qed (simp_all add: process_one_def books_part_def content_part_def encoded_lines_def)

lemma process_loop_eq:
  "process_loop ib ic docs (B, C) =
     (B @ concat (map (\<lambda>d. books_part ib ic (snd d)) docs),
      C @ concat (map (\<lambda>d. content_part ib ic (snd d)) docs))"
  by (induction docs arbitrary: B C) (auto simp: process_one_eq)

lemma process_json_objects_eq:
  "process_json_objects ib ic docs =
     (concat (map (\<lambda>d. books_part ib ic (snd d)) docs),
      concat (map (\<lambda>d. content_part ib ic (snd d)) docs))"
  by (simp add: process_json_objects_def process_loop_eq)

lemma alternates_append: "alternates xs \<Longrightarrow> alternates (xs @ ys) = alternates ys"
  by (induction xs rule: alternates.induct) auto

lemma alternates_concat: "list_all alternates xss \<Longrightarrow> alternates (concat xss)"
  by (induction xss) (auto simp: alternates_append)

lemma alternates_even: "alternates xs \<Longrightarrow> even (length xs)"
  by (induction xs rule: alternates.induct) auto

lemma is_action_book_action: "is_action (book_action b ib)"
  by (simp add: is_action_def book_action_def)

lemma is_action_chunk_action: "is_action (chunk_action ic)"
  by (simp add: is_action_def chunk_action_def)

lemma is_source_book_doc: "is_source (book_doc b)"
  by (simp add: is_source_def book_doc_def)

lemma is_source_chunk_doc: "is_source (chunk_doc b k lab ci pi para)"
  by (simp add: is_source_def chunk_doc_def)

lemma alternates_chunk_lines: "alternates (chunk_lines b ic seq fps)"
proof (induction fps arbitrary: seq)
  case Nil
  then show ?case by (simp add: chunk_lines_Nil)
next
  case (Cons fp fps)
  obtain ci lab pi para where fp: "fp = (ci, lab, pi, para)" by (cases fp)
  show ?case
    by (simp add: fp chunk_lines_Cons is_action_chunk_action is_source_chunk_doc Cons.IH)
qed

lemma alternates_encoded_lines: "alternates (encoded_lines ib ic data)"
proof (cases data)
  case (JObj b)
  show ?thesis
  proof (cases "encodable b")
    case True
    then show ?thesis
      by (simp add: JObj encoded_lines_encodable is_action_book_action is_source_book_doc
          alternates_chunk_lines)
  next
    case False
    then show ?thesis by (simp add: JObj encoded_lines_not_encodable)
  qed
qed (simp_all add: encoded_lines_def)

lemma alternates_take2: "alternates xs \<Longrightarrow> alternates (take 2 xs)"
  by (induction xs rule: alternates.induct) auto

lemma alternates_drop2: "alternates xs \<Longrightarrow> alternates (drop 2 xs)"
  by (induction xs rule: alternates.induct) auto

lemma alternates_books_part: "alternates (books_part ib ic data)"
  by (simp add: books_part_def alternates_encoded_lines alternates_take2)

lemma alternates_content_part: "alternates (content_part ib ic data)"
  by (simp add: content_part_def alternates_encoded_lines alternates_drop2)

lemma field_chunk_doc_chunk_id:
  "field (chunk_doc b k lab ci pi para) ''chunk_id'' = Some (JStr (chunk_id b k))"
  by (simp add: field_def chunk_doc_def)

lemma field_chunk_doc_text:
  "field (chunk_doc b k lab ci pi para) ''text'' = Some para"
  by (simp add: field_def chunk_doc_def)

lemma map_fst_enumerate_fun:
  "map (\<lambda>c. f (fst c)) (enumerate n xs) = map f [n..<n + length xs]"
proof -
  have "map (\<lambda>c. f (fst c)) (enumerate n xs) = map f (map fst (enumerate n xs))"
    by (simp only: map_map comp_def)
  then show ?thesis by (simp only: map_fst_enumerate)
qed

lemma sample_encodable: "encodable sample_book"
  by code_simp

lemma metas_append: "alternates xs \<Longrightarrow> metas (xs @ ys) = metas xs @ metas ys"
  by (induction xs rule: alternates.induct) auto

lemma sources_append: "alternates xs \<Longrightarrow> sources (xs @ ys) = sources xs @ sources ys"
  by (induction xs rule: alternates.induct) auto

lemma metas_concat: "list_all alternates xss \<Longrightarrow> metas (concat xss) = concat (map metas xss)"
  by (induction xss) (auto simp: metas_append)

lemma sources_concat: "list_all alternates xss \<Longrightarrow> sources (concat xss) = concat (map sources xss)"
  by (induction xss) (auto simp: sources_append)

lemma action_id_book_action: "action_id (book_action b ib) = Some (dict_get b ''book_id'')"
  by (simp add: action_id_def field_def book_action_def)

lemma action_id_chunk_action: "action_id (chunk_action ic) = None"
  by (simp add: action_id_def field_def chunk_action_def)

lemma field_book_doc_book_id: "field (book_doc b) ''book_id'' = Some (dict_get b ''book_id'')"
  by (simp add: field_def book_doc_def)

lemma metas_content_part:
  "metas (content_part ib ic data) = replicate (length (metas (content_part ib ic data))) (chunk_action ic)"
proof (cases data)
  case (JObj b)
  show ?thesis
  proof (cases "encodable b")
    case True
    then show ?thesis
      by (simp add: JObj content_part_def encoded_lines_encodable metas_chunk_lines)
  next
    case False
    then show ?thesis by (simp add: JObj content_part_def encoded_lines_not_encodable)
  qed
qed (simp_all add: content_part_def encoded_lines_def)

lemma content_metas:
  "list_all (\<lambda>a. a = chunk_action ic) (metas (snd (process_json_objects ib ic docs)))"
proof -
  have "list_all (\<lambda>a. a = chunk_action ic) (metas (content_part ib ic data))" for data
    by (subst metas_content_part) (simp add: list_all_iff)
  then have "list_all (\<lambda>a. a = chunk_action ic)
               (concat (map metas (map (\<lambda>d. content_part ib ic (snd d)) docs)))"
    by (induction docs) auto
  moreover have "metas (concat (map (\<lambda>d. content_part ib ic (snd d)) docs))
                   = concat (map metas (map (\<lambda>d. content_part ib ic (snd d)) docs))"
    by (rule metas_concat) (simp add: list_all_iff alternates_content_part)
  ultimately show ?thesis by (simp add: process_json_objects_eq)
qed

lemma books_part_ids:
  "ic \<noteq> ib \<Longrightarrow>
   map action_id (metas (books_part ib ic data)) = map (\<lambda>s. field s ''book_id'') (sources (books_part ib ic data))"
proof (cases data)
  case (JObj b)
  assume "ic \<noteq> ib"
  then show ?thesis
    by (cases "encodable b")
       (simp_all add: JObj books_part_def encoded_lines_encodable encoded_lines_not_encodable
          action_id_book_action field_book_doc_book_id)
qed (simp_all add: books_part_def encoded_lines_def)

lemma books_ids:
  assumes "ic \<noteq> ib"
  shows "map action_id (metas (fst (process_json_objects ib ic docs)))
           = map (\<lambda>s. field s ''book_id'') (sources (fst (process_json_objects ib ic docs)))"
proof -
  let ?parts = "map (\<lambda>d. books_part ib ic (snd d)) docs"
  have alt: "list_all alternates ?parts"
    by (simp add: list_all_iff alternates_books_part)
  have "map action_id (concat (map metas ?parts))
          = map (\<lambda>s. field s ''book_id'') (concat (map sources ?parts))"
    by (induction docs) (auto simp: books_part_ids [OF assms])
  then show ?thesis
    by (simp add: process_json_objects_eq metas_concat [OF alt] sources_concat [OF alt])
qed

lemma book_doc_str_defaults:
  "map_of b ''source_uid'' = None \<Longrightarrow> field (book_doc b) ''source_uid'' = Some (JStr [])"
  "map_of b ''author'' = None \<Longrightarrow> field (book_doc b) ''author'' = Some (JStr [])"
  "map_of b ''publisher'' = None \<Longrightarrow> field (book_doc b) ''publisher'' = Some (JStr [])"
  "map_of b ''description'' = None \<Longrightarrow> field (book_doc b) ''description'' = Some (JStr [])"
  "map_of b ''genres'' = None \<Longrightarrow> field (book_doc b) ''genres'' = Some (JStr [])"
  "map_of b ''linkToBook'' = None \<Longrightarrow> field (book_doc b) ''linkToBook'' = Some (JStr [])"
  by (simp_all add: field_def book_doc_def dict_get_default_def)

lemma book_doc_null_defaults:
  "map_of b ''book_id'' = None \<Longrightarrow> field (book_doc b) ''book_id'' = Some JNull"
  "map_of b ''title'' = None \<Longrightarrow> field (book_doc b) ''title'' = Some JNull"
  "map_of b ''language'' = None \<Longrightarrow> field (book_doc b) ''language'' = Some JNull"
  by (simp_all add: field_def book_doc_def dict_get_def)

section \<open>Embedding merge\<close>

lemma embed_loop_lines:
  "embed_loop encode io sf tf pairs (tu, posted) = (None, (tu', posted')) \<Longrightarrow>
   concat posted' @ tu' = concat posted @ tu @ concat (map (pair_lines encode io sf tf) pairs)"
proof (induction pairs arbitrary: tu posted)
  case Nil
  then show ?case by simp
next
  case (Cons p pairs)
  obtain meta src where p: "p = (meta, src)" by (cases p)
  show ?case
  proof (cases "embed_pair encode io sf tf meta src")
    case (Inl e)
    with Cons.prems p show ?thesis by simp
  next
    case (Inr ls)
    have pl: "pair_lines encode io sf tf p = ls"
      by (simp add: pair_lines_def p Inr)
    show ?thesis
    proof (cases "ls \<noteq> [] \<and> length (tu @ ls) \<ge> 1000")
      case True
      with Cons.prems p Inr
      have "embed_loop encode io sf tf pairs ([], posted @ [tu @ ls]) = (None, (tu', posted'))"
        by simp
      from Cons.IH [OF this] show ?thesis by (simp add: pl)
    next
      case False
      with Cons.prems p Inr
      have "embed_loop encode io sf tf pairs (tu @ ls, posted) = (None, (tu', posted'))"
        by (simp split: if_splits)
      from Cons.IH [OF this] show ?thesis by (simp add: pl)
    qed
  qed
qed

lemma embed_from_ndjson_lines:
  assumes "embed_from_ndjson encode lines sf tf io = (batches, None)"
  shows "concat batches = concat (map (pair_lines encode io sf tf) (fst (iter_ndjson_docs lines)))"
proof -
  obtain pairs stop where it: "iter_ndjson_docs lines = (pairs, stop)"
    by (cases "iter_ndjson_docs lines")
  obtain err tu posted where lp: "embed_loop encode io sf tf pairs ([], []) = (err, (tu, posted))"
    by (cases "embed_loop encode io sf tf pairs ([], [])") auto
  from assms it lp have err: "err = None" and stop: "stop = None"
    by (auto simp: embed_from_ndjson_def split: option.splits)
  from assms it lp err stop have b: "batches = (if tu \<noteq> [] then posted @ [tu] else posted)"
    by (simp add: embed_from_ndjson_def)
  from embed_loop_lines [OF lp [unfolded err]]
  have "concat posted @ tu = concat (map (pair_lines encode io sf tf) pairs)" by simp
  with b it show ?thesis by auto
qed

lemma subscript_JObj:
  "subscript (JObj d) k = (case map_of d k of None \<Rightarrow> Inl KeyError | Some x \<Rightarrow> Inr x)"
  by (simp add: subscript_def)

lemma embed_pair_skip:
  assumes "subscript meta ''index'' = Inr (JObj im)" and "resolve_idx io meta = Inr idx"
    and "\<not> py_truthy (dict_get_default d sf (JStr []))"
  shows "embed_pair encode io sf tf meta (JObj d) = Inr []"
  using assms
  by (cases "map_of im ''_id''")
     (simp_all add: embed_pair_def py_contains_def src_get_def subscript_JObj)

lemma embed_pair_index:
  assumes "subscript meta ''index'' = Inr (JObj im)" and "resolve_idx io meta = Inr idx"
    and "py_truthy (dict_get_default d sf (JStr []))" and "map_of im ''_id'' = None"
  shows "embed_pair encode io sf tf meta (JObj d) =
           Inr [JObj [(''index'', JObj [(''_index'', idx)])],
                JObj (AList.update tf (encode (dict_get_default d sf (JStr []))) d)]"
  using assms by (simp add: embed_pair_def py_contains_def src_get_def)

lemma embed_pair_update:
  assumes "subscript meta ''index'' = Inr (JObj im)" and "resolve_idx io meta = Inr idx"
    and "py_truthy (dict_get_default d sf (JStr []))" and "map_of im ''_id'' = Some ident"
  shows "embed_pair encode io sf tf meta (JObj d) =
           Inr [JObj [(''update'', JObj [(''_index'', idx), (''_id'', ident)])],
                JObj [(''doc'', JObj [(tf, encode (dict_get_default d sf (JStr [])))])]]"
  using assms by (simp add: embed_pair_def py_contains_def src_get_def subscript_JObj)

section \<open>Content extractor\<close>

lemma find_is_head_of_find_all:
  "find_node names n = (case find_all_node names n of [] \<Rightarrow> None | h # hs \<Rightarrow> Some h)"
  "find_nodes names ns = (case find_all_nodes names ns of [] \<Rightarrow> None | h # hs \<Rightarrow> Some h)"
  by (induction names n and names ns rule: find_node_find_nodes.induct)
     (auto split: list.splits option.splits)

lemma extract_label:
  "fst (extract_texts_from_item item) =
     (case find_nodes [''h1'', ''h2'', ''h3'', ''title''] (item_content item) of
        Some h \<Rightarrow> if get_text '' '' [h] \<noteq> [] then get_text '' '' [h] else item_name item
      | None \<Rightarrow> item_name item)"
  by (simp add: extract_texts_from_item_def Let_def split: option.splits)

section \<open>Identity\<close>











section \<open>The stages of \<open>read_epub\<close>\<close>

lemma map_of_setdefault:
  "map_of (setdefault k v d) k' =
     (if k' = k then (case map_of d k of None \<Rightarrow> Some v | Some x \<Rightarrow> Some x) else map_of d k')"
  by (auto simp: setdefault_def map_add_def split: option.splits)

lemma map_of_identity_fields:
  "map_of (identity_fields book raw d) k =
     (if k = ''book_id'' then Some (JStr (derive_book_id (pick_stable_id book raw)))
      else if k = ''source_uid'' then Some (JStr (pick_stable_id book raw))
      else map_of d k)"
  by (simp add: identity_fields_def Let_def update_conv')

lemma map_of_default_fields_other:
  "k \<notin> set [''publisher'', ''genres'', ''linkToBook'', ''title'', ''authors''] \<Longrightarrow>
   map_of (default_fields stem book d) k = map_of d k"
  by (simp add: default_fields_def Let_def update_conv' delete_conv' map_of_setdefault
      split: list.splits)

lemma map_of_chapter_fields:
  "map_of (chapter_fields chapters d) k =
     (if k = ''chapters'' then Some (JArr (map chapter_json chapters)) else map_of d k)"
  by (simp add: chapter_fields_def update_conv')

lemma map_of_description_fallback_other:
  "k \<noteq> ''description'' \<Longrightarrow> map_of (description_fallback chapters d) k = map_of d k"
  by (simp add: description_fallback_def Let_def update_conv')

lemma map_of_author_from_text_other:
  "k \<noteq> ''author'' \<Longrightarrow> map_of (author_from_text chapters d) k = map_of d k"
  by (simp add: author_from_text_def Let_def update_conv' split: list.splits option.splits)

lemma map_of_publisher_from_text_other:
  "k \<noteq> ''publisher'' \<Longrightarrow> map_of (publisher_from_text chapters d) k = map_of d k"
  by (simp add: publisher_from_text_def Let_def update_conv' split: list.splits option.splits)

lemma map_of_author_from_stem_other:
  "k \<noteq> ''author'' \<Longrightarrow> map_of (author_from_stem stem d) k = map_of d k"
  by (simp add: author_from_stem_def update_conv')

lemma map_of_publisher_from_marker_other:
  "k \<noteq> ''publisher'' \<Longrightarrow> map_of (publisher_from_marker chapters d) k = map_of d k"
  by (simp add: publisher_from_marker_def Let_def update_conv')

lemmas stage_other =
  map_of_default_fields_other map_of_chapter_fields map_of_description_fallback_other
  map_of_author_from_text_other map_of_publisher_from_text_other map_of_author_from_stem_other
  map_of_publisher_from_marker_other

lemma read_epub_source_uid:
  "map_of (read_epub stem book raw) ''source_uid'' = Some (JStr (pick_stable_id book raw))"
  by (simp add: read_epub_def Let_def stage_other map_of_identity_fields)

lemma read_epub_book_id:
  "map_of (read_epub stem book raw) ''book_id'' = Some (JStr (derive_book_id (pick_stable_id book raw)))"
  by (simp add: read_epub_def Let_def stage_other map_of_identity_fields)

lemma read_epub_chapters:
  "map_of (read_epub stem book raw) ''chapters'' = Some (JArr (map chapter_json (book_chapter_list book)))"
  by (simp add: read_epub_def Let_def stage_other)

lemma chunk_ids_of_encodable:
  assumes "encodable b"
  shows "\<exists>acts. to_bulk_actions b ib ic = Inr acts
     \<and> map (\<lambda>d. field d ''chunk_id'') (sources (drop 2 acts))
         = map (\<lambda>seq. Some (JStr (chunk_id b seq))) [0..<paragraph_count b]"
proof -
  let ?fps = "flat_paragraphs b"
  let ?acts = "[book_action b ib, book_doc b] @ chunk_lines b ic 0 ?fps"
  have run: "to_bulk_actions b ib ic = Inr ?acts"
    by (rule to_bulk_actions_ok [OF assms])
  have dr: "drop 2 ?acts = chunk_lines b ic 0 ?fps" by simp
  have "map (\<lambda>d. field d ''chunk_id'') (sources (drop 2 ?acts))
          = map (\<lambda>c. Some (JStr (chunk_id b (fst c)))) (enumerate 0 ?fps)"
    unfolding dr sources_chunk_lines
    by (simp add: comp_def case_prod_unfold field_chunk_doc_chunk_id)
  also have "\<dots> = map (\<lambda>seq. Some (JStr (chunk_id b seq))) [0..<0 + length ?fps]"
    by (rule map_fst_enumerate_fun)
  finally have "map (\<lambda>d. field d ''chunk_id'') (sources (drop 2 ?acts))
          = map (\<lambda>seq. Some (JStr (chunk_id b seq))) [0..<paragraph_count b]"
    by (simp add: length_flat_paragraphs)
  with run show ?thesis by blast
qed

lemma chapter_ok_chapter_json: "chapter_ok (chapter_json ch)"
  by (simp add: chapter_ok_def chapter_paragraphs_def chapter_json_def dict_get_default_def)

lemma paragraphs_of_chapter_json: "paragraphs_of (chapter_json ch) = map JStr (snd ch)"
  by (simp add: paragraphs_of_def chapter_paragraphs_def chapter_json_def dict_get_default_def)

lemma book_chapters_read_epub:
  "book_chapters (read_epub stem book raw) = Inr (map chapter_json (book_chapter_list book))"
  by (simp add: book_chapters_def dict_get_default_def read_epub_chapters)

lemma encodable_read_epub: "encodable (read_epub stem book raw)"
  by (simp add: encodable_def book_chapters_read_epub list_all_iff chapter_ok_chapter_json)

lemma chapters_of_read_epub:
  "chapters_of (read_epub stem book raw) = map chapter_json (book_chapter_list book)"
  by (simp add: chapters_of_def book_chapters_read_epub)

lemma paragraph_count_read_epub:
  "paragraph_count (read_epub stem book raw)
     = sum_list (map (\<lambda>ch. length (snd ch)) (book_chapter_list book))"
  by (simp add: paragraph_count_def chapters_of_read_epub comp_def paragraphs_of_chapter_json)

lemma chunk_id_read_epub:
  "chunk_id (read_epub stem book raw) seq
     = derive_book_id (pick_stable_id book raw) @ ''-'' @ fmt06 seq"
  by (simp add: chunk_id_def dict_get_def read_epub_book_id)


section \<open>Determinism of the derived identifiers\<close>

text \<open>
  Claim C1. The identifiers are a function of the document alone. For one parsed book
  and one sequence of file bytes, \<open>source_uid\<close>, \<open>book_id\<close> and the ordered sequence of
  \<open>chunk_id\<close> values are the same in any two runs, whatever the name of the file and
  whatever the index names given to the encoder; the encoder returns on every document
  that \<open>read_epub\<close> produces, and the chunk ids are the derived \<open>book_id\<close> followed by the
  running number of the paragraph.
\<close>

theorem pipeline_ids_deterministic:
  "map_of (read_epub stem1 book raw) ''source_uid'' = map_of (read_epub stem2 book raw) ''source_uid''
   \<and> map_of (read_epub stem1 book raw) ''book_id'' = map_of (read_epub stem2 book raw) ''book_id''
   \<and> (\<exists>actions1 actions2.
         to_bulk_actions (read_epub stem1 book raw) index_books1 index_content1 = Inr actions1
       \<and> to_bulk_actions (read_epub stem2 book raw) index_books2 index_content2 = Inr actions2
       \<and> map (\<lambda>d. field d ''chunk_id'') (sources (drop 2 actions1))
           = map (\<lambda>d. field d ''chunk_id'') (sources (drop 2 actions2))
       \<and> map (\<lambda>d. field d ''chunk_id'') (sources (drop 2 actions1))
           = map (\<lambda>seq. Some (JStr (derive_book_id (pick_stable_id book raw) @ ''-'' @ fmt06 seq)))
               [0..<sum_list (map (\<lambda>ch. length (snd ch)) (book_chapter_list book))])"
proof -
  from chunk_ids_of_encodable [OF encodable_read_epub, of stem1 book raw index_books1 index_content1]
  obtain a1 where a1: "to_bulk_actions (read_epub stem1 book raw) index_books1 index_content1 = Inr a1"
    and i1: "map (\<lambda>d. field d ''chunk_id'') (sources (drop 2 a1))
           = map (\<lambda>seq. Some (JStr (derive_book_id (pick_stable_id book raw) @ ''-'' @ fmt06 seq)))
               [0..<sum_list (map (\<lambda>ch. length (snd ch)) (book_chapter_list book))]"
    unfolding chunk_id_read_epub paragraph_count_read_epub by blast
  from chunk_ids_of_encodable [OF encodable_read_epub, of stem2 book raw index_books2 index_content2]
  obtain a2 where a2: "to_bulk_actions (read_epub stem2 book raw) index_books2 index_content2 = Inr a2"
    and i2: "map (\<lambda>d. field d ''chunk_id'') (sources (drop 2 a2))
           = map (\<lambda>seq. Some (JStr (derive_book_id (pick_stable_id book raw) @ ''-'' @ fmt06 seq)))
               [0..<sum_list (map (\<lambda>ch. length (snd ch)) (book_chapter_list book))]"
    unfolding chunk_id_read_epub paragraph_count_read_epub by blast
  have s: "map_of (read_epub stem1 book raw) ''source_uid'' = map_of (read_epub stem2 book raw) ''source_uid''"
    by (simp only: read_epub_source_uid)
  have b: "map_of (read_epub stem1 book raw) ''book_id'' = map_of (read_epub stem2 book raw) ''book_id''"
    by (simp only: read_epub_book_id)
  from i1 i2 have e: "map (\<lambda>d. field d ''chunk_id'') (sources (drop 2 a1))
           = map (\<lambda>d. field d ''chunk_id'') (sources (drop 2 a2))"
    by (simp only:)
  from s b a1 a2 e i1 show ?thesis by blast
qed

theorem pipeline_ids_deterministic_witness:
  "map_of (read_epub ''a'' sample_epub [1, 2, 3]) ''source_uid''
     = map_of (read_epub ''b'' sample_epub [1, 2, 3]) ''source_uid''
   \<and> map_of (read_epub ''a'' sample_epub [1, 2, 3]) ''book_id''
     = map_of (read_epub ''b'' sample_epub [1, 2, 3]) ''book_id''"
  using pipeline_ids_deterministic [of "''a''" sample_epub "[1, 2, 3]" "''b''"]
  by blast

section \<open>Chunk numbering\<close>

text \<open>
  Claim C2. For every document that can be encoded (in particular every Document:
  chapters a list of objects whose paragraphs are lists), \<open>to_bulk_actions\<close> returns;
  after the two book lines it emits exactly \<open>N\<close> chunk records, \<open>N\<close> the sum of the
  paragraph counts of the chapters in order; their \<open>chunk_id\<close> values are
  \<open>"{book_id}-{seq:06d}"\<close> for \<open>seq = 0, \<dots>, N - 1\<close> in that order; and their texts are the
  paragraphs in (section, paragraph) order, none moved and none dropped.
\<close>

theorem chunk_ids_contiguous:
  assumes "encodable book_json"
  shows "\<exists>actions. to_bulk_actions book_json index_books index_content = Inr actions
     \<and> length (sources (drop 2 actions)) = paragraph_count book_json
     \<and> map (\<lambda>d. field d ''chunk_id'') (sources (drop 2 actions))
         = map (\<lambda>seq. Some (JStr (py_str (dict_get book_json ''book_id'') @ ''-'' @ fmt06 seq)))
               [0..<paragraph_count book_json]
     \<and> map (\<lambda>d. field d ''text'') (sources (drop 2 actions))
         = map Some (concat (map paragraphs_of (chapters_of book_json)))"
proof -
  let ?fps = "flat_paragraphs book_json"
  let ?acts = "[book_action book_json index_books, book_doc book_json]
                 @ chunk_lines book_json index_content 0 ?fps"
  have run: "to_bulk_actions book_json index_books index_content = Inr ?acts"
    by (rule to_bulk_actions_ok [OF assms])
  have dr: "drop 2 ?acts = chunk_lines book_json index_content 0 ?fps"
    by simp
  have src: "sources (drop 2 ?acts)
               = map (\<lambda>(k, (ci, lab, pi, para)). chunk_doc book_json k lab ci pi para) (enumerate 0 ?fps)"
    unfolding dr by (rule sources_chunk_lines)
  have len: "length (sources (drop 2 ?acts)) = paragraph_count book_json"
    unfolding src by (simp add: length_flat_paragraphs)
  have ids: "map (\<lambda>d. field d ''chunk_id'') (sources (drop 2 ?acts))
               = map (\<lambda>seq. Some (JStr (chunk_id book_json seq))) [0..<paragraph_count book_json]"
  proof -
    have "map (\<lambda>d. field d ''chunk_id'') (sources (drop 2 ?acts))
            = map (\<lambda>c. Some (JStr (chunk_id book_json (fst c)))) (enumerate 0 ?fps)"
      unfolding src by (simp add: comp_def case_prod_unfold field_chunk_doc_chunk_id)
    also have "\<dots> = map (\<lambda>seq. Some (JStr (chunk_id book_json seq))) [0..<0 + length ?fps]"
      by (rule map_fst_enumerate_fun)
    finally show ?thesis by (simp add: length_flat_paragraphs)
  qed
  have tx: "map (\<lambda>d. field d ''text'') (sources (drop 2 ?acts))
               = map Some (concat (map paragraphs_of (chapters_of book_json)))"
  proof -
    have "map (\<lambda>d. field d ''text'') (sources (drop 2 ?acts))
            = map (\<lambda>c. Some ((\<lambda>(ci, lab, pi, para). para) (snd c))) (enumerate 0 ?fps)"
      unfolding src by (simp add: comp_def case_prod_unfold field_chunk_doc_text)
    also have "\<dots> = map (\<lambda>x. Some ((\<lambda>(ci, lab, pi, para). para) x)) ?fps"
      by (rule map_snd_enumerate_fun)
    also have "\<dots> = map Some (map (\<lambda>(ci, lab, pi, para). para) ?fps)"
      by (simp add: comp_def)
    finally show ?thesis by (simp add: texts_flat_paragraphs)
  qed
  from run len ids tx show ?thesis
    unfolding chunk_id_def by blast
qed

theorem chunk_ids_contiguous_witness:
  "encodable sample_book
   \<and> (\<exists>actions. to_bulk_actions sample_book ''books'' ''book_content'' = Inr actions
     \<and> length (sources (drop 2 actions)) = paragraph_count sample_book
     \<and> map (\<lambda>d. field d ''chunk_id'') (sources (drop 2 actions))
         = map (\<lambda>seq. Some (JStr (py_str (dict_get sample_book ''book_id'') @ ''-'' @ fmt06 seq)))
               [0..<paragraph_count sample_book]
     \<and> map (\<lambda>d. field d ''text'') (sources (drop 2 actions))
         = map Some (concat (map paragraphs_of (chapters_of sample_book))))"
  by (rule conjI [OF sample_encodable chunk_ids_contiguous [OF sample_encodable]])

section \<open>The stable identifier\<close>



section \<open>Identifiers on action lines\<close>

text \<open>
  Claim C6. For every document that can be encoded, the first line emitted by
  \<open>to_bulk_actions\<close> is the index action \<open>{"index": {"_index": index_books, "_id": b}}\<close>
  with \<open>b\<close> the \<open>book_id\<close> of the Book summary record that follows it, so the \<open>_id\<close> is
  a function of the record alone; every later action line is exactly
  \<open>{"index": {"_index": index_content}}\<close>, without an \<open>_id\<close> key. The same holds in the
  streams of \<open>process_json_objects\<close>: every action line of the content stream is
  \<open>{"index": {"_index": index_content}}\<close>, and with distinct index names every action
  line of the books stream carries as \<open>_id\<close> the \<open>book_id\<close> of its source line.
\<close>

theorem book_action_carries_id:
  assumes "encodable book_json"
  shows "(\<exists>actions. to_bulk_actions book_json index_books index_content = Inr actions
      \<and> metas actions =
          JObj [(''index'', JObj [(''_index'', JStr index_books), (''_id'', dict_get book_json ''book_id'')])]
          # replicate (paragraph_count book_json) (JObj [(''index'', JObj [(''_index'', JStr index_content)])])
      \<and> take 1 (sources actions) = [book_doc book_json]
      \<and> field (book_doc book_json) ''book_id'' = Some (dict_get book_json ''book_id''))
    \<and> list_all (\<lambda>a. a = JObj [(''index'', JObj [(''_index'', JStr index_content)])])
         (metas (snd (process_json_objects index_books index_content json_iter)))
    \<and> (index_content \<noteq> index_books \<longrightarrow>
         map action_id (metas (fst (process_json_objects index_books index_content json_iter)))
           = map (\<lambda>s. field s ''book_id'')
               (sources (fst (process_json_objects index_books index_content json_iter))))"
proof -
  let ?acts = "[book_action book_json index_books, book_doc book_json]
                 @ chunk_lines book_json index_content 0 (flat_paragraphs book_json)"
  have run: "to_bulk_actions book_json index_books index_content = Inr ?acts"
    by (rule to_bulk_actions_ok [OF assms])
  have m: "metas ?acts = book_action book_json index_books
             # replicate (paragraph_count book_json) (chunk_action index_content)"
    by (simp add: metas_chunk_lines length_flat_paragraphs)
  have s: "take 1 (sources ?acts) = [book_doc book_json]"
    by simp
  from run m s field_book_doc_book_id [of book_json]
  have one: "\<exists>actions. to_bulk_actions book_json index_books index_content = Inr actions
      \<and> metas actions =
          JObj [(''index'', JObj [(''_index'', JStr index_books), (''_id'', dict_get book_json ''book_id'')])]
          # replicate (paragraph_count book_json) (JObj [(''index'', JObj [(''_index'', JStr index_content)])])
      \<and> take 1 (sources actions) = [book_doc book_json]
      \<and> field (book_doc book_json) ''book_id'' = Some (dict_get book_json ''book_id'')"
    unfolding book_action_def chunk_action_def by blast
  have two: "list_all (\<lambda>a. a = JObj [(''index'', JObj [(''_index'', JStr index_content)])])
         (metas (snd (process_json_objects index_books index_content json_iter)))"
    using content_metas [of index_content index_books json_iter]
    unfolding chunk_action_def .
  from one two books_ids [of index_content index_books json_iter] show ?thesis
    by blast
qed

theorem book_action_carries_id_witness:
  "encodable sample_book \<and> ''book_content'' \<noteq> ''books''
   \<and> (\<exists>actions. to_bulk_actions sample_book ''books'' ''book_content'' = Inr actions
        \<and> metas actions =
            JObj [(''index'', JObj [(''_index'', JStr ''books''), (''_id'', dict_get sample_book ''book_id'')])]
            # replicate (paragraph_count sample_book) (JObj [(''index'', JObj [(''_index'', JStr ''book_content'')])]))
   \<and> map action_id (metas (fst (process_json_objects ''books'' ''book_content'' [(''a.json'', JObj sample_book)])))
        = map (\<lambda>s. field s ''book_id'')
            (sources (fst (process_json_objects ''books'' ''book_content'' [(''a.json'', JObj sample_book)])))"
proof -
  have ne: "''book_content'' \<noteq> ''books''" by simp
  note t = book_action_carries_id [OF sample_encodable, of "''books''" "''book_content''"
             "[(''a.json'', JObj sample_book)]"]
  from t ne sample_encodable show ?thesis by blast
qed

section \<open>Embedding merge mode\<close>

text \<open>
  Claim C7. Take a pair read from the stream whose metadata is \<open>{"index": {...}}\<close> and
  whose source is a dict, with the index name resolved (\<open>index_override\<close>, or else the
  \<open>_index\<close> of the metadata). If the source's text field is absent or empty (falsy), the
  pair contributes no line. Otherwise, if the metadata has no \<open>_id\<close>, the pair
  contributes \<open>{"index": {"_index": idx}}\<close> and the source with the vector stored under
  the target field; if it has an \<open>_id\<close>, the pair contributes
  \<open>{"update": {"_index": idx, "_id": id}}\<close> followed by \<open>{"doc": {target_field: vector}}\<close>.
  When the run ends without an exception, the posted batches hold, in order, exactly the
  lines of the pairs.
\<close>

theorem embedding_merge_cases:
  assumes "subscript meta ''index'' = Inr (JObj im)"
    and "resolve_idx index_override meta = Inr idx"
  shows "(map_of d source_field = None \<or> \<not> py_truthy (dict_get_default d source_field (JStr []))
          \<longrightarrow> embed_pair encode index_override source_field target_field meta (JObj d) = Inr [])
    \<and> (py_truthy (dict_get_default d source_field (JStr [])) \<and> map_of im ''_id'' = None
          \<longrightarrow> embed_pair encode index_override source_field target_field meta (JObj d)
                = Inr [JObj [(''index'', JObj [(''_index'', idx)])],
                       JObj (AList.update target_field (encode (dict_get_default d source_field (JStr []))) d)]
              \<and> map_of (AList.update target_field (encode (dict_get_default d source_field (JStr []))) d)
                   target_field = Some (encode (dict_get_default d source_field (JStr []))))
    \<and> (py_truthy (dict_get_default d source_field (JStr [])) \<and> map_of im ''_id'' = Some ident
          \<longrightarrow> embed_pair encode index_override source_field target_field meta (JObj d)
                = Inr [JObj [(''update'', JObj [(''_index'', idx), (''_id'', ident)])],
                       JObj [(''doc'', JObj [(target_field, encode (dict_get_default d source_field (JStr [])))])]])
    \<and> (embed_from_ndjson encode lines source_field target_field index_override = (batches, None)
          \<longrightarrow> concat batches
                = concat (map (pair_lines encode index_override source_field target_field)
                              (fst (iter_ndjson_docs lines))))"
proof (intro conjI impI)
  assume "map_of d source_field = None \<or> \<not> py_truthy (dict_get_default d source_field (JStr []))"
  then have "\<not> py_truthy (dict_get_default d source_field (JStr []))"
    by (auto simp: dict_get_default_def)
  then show "embed_pair encode index_override source_field target_field meta (JObj d) = Inr []"
    by (rule embed_pair_skip [OF assms])
next
  assume "py_truthy (dict_get_default d source_field (JStr [])) \<and> map_of im ''_id'' = None"
  then show "embed_pair encode index_override source_field target_field meta (JObj d)
                = Inr [JObj [(''index'', JObj [(''_index'', idx)])],
                       JObj (AList.update target_field (encode (dict_get_default d source_field (JStr []))) d)]"
    by (simp add: embed_pair_index [OF assms])
next
  show "map_of (AList.update target_field (encode (dict_get_default d source_field (JStr []))) d)
          target_field = Some (encode (dict_get_default d source_field (JStr [])))"
    by (simp add: update_conv')
next
  assume "py_truthy (dict_get_default d source_field (JStr [])) \<and> map_of im ''_id'' = Some ident"
  then show "embed_pair encode index_override source_field target_field meta (JObj d)
                = Inr [JObj [(''update'', JObj [(''_index'', idx), (''_id'', ident)])],
                       JObj [(''doc'', JObj [(target_field, encode (dict_get_default d source_field (JStr [])))])]]"
    by (simp add: embed_pair_update [OF assms])
next
  assume "embed_from_ndjson encode lines source_field target_field index_override = (batches, None)"
  then show "concat batches
                = concat (map (pair_lines encode index_override source_field target_field)
                              (fst (iter_ndjson_docs lines)))"
    by (rule embed_from_ndjson_lines)
qed

theorem embedding_merge_cases_witness:
  "subscript (JObj [(''index'', JObj [(''_index'', JStr ''book_content'')])]) ''index''
     = Inr (JObj [(''_index'', JStr ''book_content'')])
   \<and> resolve_idx None (JObj [(''index'', JObj [(''_index'', JStr ''book_content'')])])
     = Inr (JStr ''book_content'')
   \<and> py_truthy (dict_get_default [(''text'', JStr ''hello'')] ''text'' (JStr []))
   \<and> map_of [(''_index'', JStr ''book_content'')] ''_id'' = None
   \<and> embed_pair sample_encode None ''text'' ''text_vector''
        (JObj [(''index'', JObj [(''_index'', JStr ''book_content'')])]) (JObj [(''text'', JStr ''hello'')])
     = Inr [JObj [(''index'', JObj [(''_index'', JStr ''book_content'')])],
            JObj [(''text'', JStr ''hello''), (''text_vector'', JArr [JInt 1, JInt 2])]]
   \<and> embed_pair sample_encode None ''text'' ''text_vector''
        (JObj [(''index'', JObj [(''_index'', JStr ''book_content'')])]) (JObj [(''text'', JStr [])])
     = Inr []
   \<and> subscript (JObj [(''index'', JObj [(''_index'', JStr ''books''), (''_id'', JStr ''ab'')])]) ''index''
     = Inr (JObj [(''_index'', JStr ''books''), (''_id'', JStr ''ab'')])
   \<and> resolve_idx None (JObj [(''index'', JObj [(''_index'', JStr ''books''), (''_id'', JStr ''ab'')])])
     = Inr (JStr ''books'')
   \<and> py_truthy (dict_get_default [(''description'', JStr ''d'')] ''description'' (JStr []))
   \<and> map_of [(''_index'', JStr ''books''), (''_id'', JStr ''ab'')] ''_id'' = Some (JStr ''ab'')
   \<and> embed_pair sample_encode None ''description'' ''description_vector''
        (JObj [(''index'', JObj [(''_index'', JStr ''books''), (''_id'', JStr ''ab'')])])
        (JObj [(''description'', JStr ''d'')])
     = Inr [JObj [(''update'', JObj [(''_index'', JStr ''books''), (''_id'', JStr ''ab'')])],
            JObj [(''doc'', JObj [(''description_vector'', JArr [JInt 1, JInt 2])])]]"
proof -
  let ?mc = "JObj [(''index'', JObj [(''_index'', JStr ''book_content'')])]"
  let ?mb = "JObj [(''index'', JObj [(''_index'', JStr ''books''), (''_id'', JStr ''ab'')])]"
  have c1: "subscript ?mc ''index'' = Inr (JObj [(''_index'', JStr ''book_content'')])"
    by (simp add: subscript_def)
  have c2: "resolve_idx None ?mc = Inr (JStr ''book_content'')"
    by (simp add: resolve_idx_def meta_index_def subscript_def)
  have c3: "py_truthy (dict_get_default [(''text'', JStr ''hello'')] ''text'' (JStr []))"
    by (simp add: dict_get_default_def)
  have c4: "map_of [(''_index'', JStr ''book_content'')] ''_id'' = None"
    by simp
  have c5: "\<not> py_truthy (dict_get_default [(''text'', JStr [])] ''text'' (JStr []))"
    by (simp add: dict_get_default_def)
  have b1: "subscript ?mb ''index'' = Inr (JObj [(''_index'', JStr ''books''), (''_id'', JStr ''ab'')])"
    by (simp add: subscript_def)
  have b2: "resolve_idx None ?mb = Inr (JStr ''books'')"
    by (simp add: resolve_idx_def meta_index_def subscript_def)
  have b3: "py_truthy (dict_get_default [(''description'', JStr ''d'')] ''description'' (JStr []))"
    by (simp add: dict_get_default_def)
  have b4: "map_of [(''_index'', JStr ''books''), (''_id'', JStr ''ab'')] ''_id'' = Some (JStr ''ab'')"
    by simp
  note tc = embedding_merge_cases [where d = "[(''text'', JStr ''hello'')]" and source_field = "''text''"
              and encode = sample_encode and target_field = "''text_vector''", OF c1 c2]
  note ts = embedding_merge_cases [where d = "[(''text'', JStr [])]" and source_field = "''text''"
              and encode = sample_encode and target_field = "''text_vector''", OF c1 c2]
  note tb = embedding_merge_cases [where d = "[(''description'', JStr ''d'')]"
              and source_field = "''description''" and ident = "JStr ''ab''"
              and encode = sample_encode and target_field = "''description_vector''", OF b1 b2]
  from tc [THEN conjunct2, THEN conjunct1, THEN mp, OF conjI [OF c3 c4], THEN conjunct1]
  have r1: "embed_pair sample_encode None ''text'' ''text_vector'' ?mc (JObj [(''text'', JStr ''hello'')])
     = Inr [JObj [(''index'', JObj [(''_index'', JStr ''book_content'')])],
            JObj [(''text'', JStr ''hello''), (''text_vector'', JArr [JInt 1, JInt 2])]]"
    by (simp add: dict_get_default_def sample_encode_def)
  from ts [THEN conjunct1, THEN mp, OF disjI2 [OF c5]]
  have r2: "embed_pair sample_encode None ''text'' ''text_vector'' ?mc (JObj [(''text'', JStr [])]) = Inr []" .
  from tb [THEN conjunct2, THEN conjunct2, THEN conjunct1, THEN mp, OF conjI [OF b3 b4]]
  have r3: "embed_pair sample_encode None ''description'' ''description_vector'' ?mb
              (JObj [(''description'', JStr ''d'')])
     = Inr [JObj [(''update'', JObj [(''_index'', JStr ''books''), (''_id'', JStr ''ab'')])],
            JObj [(''doc'', JObj [(''description_vector'', JArr [JInt 1, JInt 2])])]]"
    by (simp add: dict_get_default_def sample_encode_def)
  from c1 c2 c3 c4 r1 r2 b1 b2 b3 b4 r3 show ?thesis by (intro conjI)
qed

section \<open>Section labels\<close>

text \<open>
  Claim C8, as stated, fails: the heading is not chosen by level. For a subunit whose
  \<open>head\<close> holds a \<open>title\<close> element and whose \<open>body\<close> holds an \<open>h1\<close>, the label is the text
  of the \<open>title\<close>, which comes first in the document, and not the text of the \<open>h1\<close>.
\<close>

theorem label_not_by_priority:
  "fst (extract_texts_from_item sample_item) = ''T'' \<and> label_by_priority sample_item = ''Chapter 1''"
  by code_simp

text \<open>
  Claim C8, amended. \<open>extract_texts_from_item\<close> is total on parsed markup. Its label is
  the text of the first element, in document order, among the \<open>h1\<close>, \<open>h2\<close>, \<open>h3\<close> and
  \<open>title\<close> elements when that text is not empty, and the subunit's name otherwise; so the
  label is not empty whenever the name is not empty.
\<close>

theorem label_first_in_document_order:
  "fst (extract_texts_from_item item) =
     (case find_nodes [''h1'', ''h2'', ''h3'', ''title''] (item_content item) of
        Some h \<Rightarrow> if get_text '' '' [h] \<noteq> [] then get_text '' '' [h] else item_name item
      | None \<Rightarrow> item_name item)
   \<and> find_nodes [''h1'', ''h2'', ''h3'', ''title''] (item_content item) =
       (case find_all_nodes [''h1'', ''h2'', ''h3'', ''title''] (item_content item) of
          [] \<Rightarrow> None
        | h # hs \<Rightarrow> Some h)
   \<and> (item_name item \<noteq> [] \<longrightarrow> fst (extract_texts_from_item item) \<noteq> [])"
proof (intro conjI impI)
  show "fst (extract_texts_from_item item) =
     (case find_nodes [''h1'', ''h2'', ''h3'', ''title''] (item_content item) of
        Some h \<Rightarrow> if get_text '' '' [h] \<noteq> [] then get_text '' '' [h] else item_name item
      | None \<Rightarrow> item_name item)"
    by (rule extract_label)
next
  show "find_nodes [''h1'', ''h2'', ''h3'', ''title''] (item_content item) =
       (case find_all_nodes [''h1'', ''h2'', ''h3'', ''title''] (item_content item) of
          [] \<Rightarrow> None
        | h # hs \<Rightarrow> Some h)"
    by (rule find_is_head_of_find_all)
next
  assume "item_name item \<noteq> []"
  then show "fst (extract_texts_from_item item) \<noteq> []"
    by (simp add: extract_label split: option.splits)
qed

theorem label_first_in_document_order_witness:
  "item_name sample_item \<noteq> [] \<and> fst (extract_texts_from_item sample_item) \<noteq> []"
proof -
  have n: "item_name sample_item \<noteq> []" by (simp add: sample_item_def)
  from label_first_in_document_order [of sample_item, THEN conjunct2, THEN conjunct2, THEN mp, OF n] n
  show ?thesis by (intro conjI)
qed

section \<open>Framing of the streams\<close>

text \<open>
  Claim C9. Both streams built by \<open>process_json_objects\<close> are sequences of pairs, an
  action metadata line immediately followed by one source line, so each has an even
  number of lines. The pairs stand in insertion order: the streams are the
  concatenation, over the input documents in order, of each document's lines, and the
  lines of one document are its book pair followed by its chunk pairs in (section,
  paragraph) order. With distinct index names the first pair of each document goes to
  the books stream and the rest to the content stream.
\<close>

theorem streams_alternate:
  "fst (process_json_objects index_books index_content json_iter)
     = concat (map (\<lambda>d. books_part index_books index_content (snd d)) json_iter)
   \<and> snd (process_json_objects index_books index_content json_iter)
     = concat (map (\<lambda>d. content_part index_books index_content (snd d)) json_iter)
   \<and> alternates (fst (process_json_objects index_books index_content json_iter))
   \<and> alternates (snd (process_json_objects index_books index_content json_iter))
   \<and> even (length (fst (process_json_objects index_books index_content json_iter)))
   \<and> even (length (snd (process_json_objects index_books index_content json_iter)))
   \<and> encoded_lines index_books index_content (JObj book_json)
     = (if encodable book_json
        then [book_action book_json index_books, book_doc book_json]
               @ chunk_lines book_json index_content 0 (flat_paragraphs book_json)
        else [])"
proof -
  let ?B = "concat (map (\<lambda>d. books_part index_books index_content (snd d)) json_iter)"
  let ?C = "concat (map (\<lambda>d. content_part index_books index_content (snd d)) json_iter)"
  have B: "alternates ?B"
    by (rule alternates_concat) (simp add: list_all_iff alternates_books_part)
  have C: "alternates ?C"
    by (rule alternates_concat) (simp add: list_all_iff alternates_content_part)
  have E: "encoded_lines index_books index_content (JObj book_json)
     = (if encodable book_json
        then [book_action book_json index_books, book_doc book_json]
               @ chunk_lines book_json index_content 0 (flat_paragraphs book_json)
        else [])"
    by (simp add: encoded_lines_encodable encoded_lines_not_encodable)
  have P: "process_json_objects index_books index_content json_iter = (?B, ?C)"
    by (rule process_json_objects_eq)
  from B C alternates_even [OF B] alternates_even [OF C] E show ?thesis
    unfolding P fst_conv snd_conv by blast
qed

theorem streams_alternate_witness:
  "alternates (fst (process_json_objects ''books'' ''book_content'' [(''a.json'', JObj sample_book)]))
   \<and> alternates (snd (process_json_objects ''books'' ''book_content'' [(''a.json'', JObj sample_book)]))
   \<and> encoded_lines ''books'' ''book_content'' (JObj sample_book)
     = [book_action sample_book ''books'', book_doc sample_book]
         @ chunk_lines sample_book ''book_content'' 0 (flat_paragraphs sample_book)"
proof -
  note t = streams_alternate [of "''books''" "''book_content''" "[(''a.json'', JObj sample_book)]" sample_book]
  from t have "encoded_lines ''books'' ''book_content'' (JObj sample_book)
     = (if encodable sample_book
        then [book_action sample_book ''books'', book_doc sample_book]
               @ chunk_lines sample_book ''book_content'' 0 (flat_paragraphs sample_book)
        else [])"
    by blast
  with sample_encodable have "encoded_lines ''books'' ''book_content'' (JObj sample_book)
     = [book_action sample_book ''books'', book_doc sample_book]
         @ chunk_lines sample_book ''book_content'' 0 (flat_paragraphs sample_book)"
    by (simp only: if_True)
  with t show ?thesis by blast
qed

section \<open>Totality of the encoder\<close>

text \<open>
  Claim C10, as stated, fails: an input object whose \<open>chapters\<close> value is \<open>null\<close> makes
  the loop \<open>enumerate(book_json.get("chapters", []))\<close> raise \<open>TypeError\<close>, and no line is
  returned.
\<close>

theorem to_bulk_actions_raises_on_null_chapters:
  "to_bulk_actions [(''chapters'', JNull)] ''books'' ''book_content'' = Inl TypeError"
  by (simp add: to_bulk_actions_def dict_get_default_def)

text \<open>
  Claim C10, amended. \<open>to_bulk_actions\<close> returns exactly for the input objects whose
  \<open>chapters\<close> value, when present, can be iterated and holds only objects whose
  \<open>paragraphs\<close> value, when present, can be iterated; an object missing every field is
  one of them. When it returns, the two book lines come first. In the book line an
  absent \<open>source_uid\<close>, \<open>author\<close>, \<open>publisher\<close>, \<open>description\<close>, \<open>genres\<close> or
  \<open>linkToBook\<close> is the empty string, and an absent \<open>book_id\<close>, \<open>title\<close> or \<open>language\<close>
  is \<open>null\<close>.
\<close>

theorem to_bulk_actions_total_on_encodable:
  "((\<exists>actions. to_bulk_actions book_json index_books index_content = Inr actions) = encodable book_json)
   \<and> (encodable book_json \<longrightarrow>
        (\<exists>rest. to_bulk_actions book_json index_books index_content
                  = Inr (book_action book_json index_books # book_doc book_json # rest)))
   \<and> to_bulk_actions [] index_books index_content = Inr [book_action [] index_books, book_doc []]
   \<and> (map_of book_json k = None
          \<and> k \<in> set [''source_uid'', ''author'', ''publisher'', ''description'', ''genres'', ''linkToBook'']
        \<longrightarrow> field (book_doc book_json) k = Some (JStr []))
   \<and> (map_of book_json k = None \<and> k \<in> set [''book_id'', ''title'', ''language'']
        \<longrightarrow> field (book_doc book_json) k = Some JNull)"
proof (intro conjI)
  show "(\<exists>actions. to_bulk_actions book_json index_books index_content = Inr actions)
          = encodable book_json"
  proof (cases "encodable book_json")
    case True
    then show ?thesis by (simp add: to_bulk_actions_ok)
  next
    case False
    from to_bulk_actions_err [OF this, of index_books index_content]
    obtain e where "to_bulk_actions book_json index_books index_content = Inl e" ..
    with False show ?thesis by simp
  qed
next
  show "encodable book_json \<longrightarrow>
        (\<exists>rest. to_bulk_actions book_json index_books index_content
                  = Inr (book_action book_json index_books # book_doc book_json # rest))"
    by (simp add: to_bulk_actions_ok)
next
  show "to_bulk_actions [] index_books index_content
          = Inr [book_action [] index_books, book_doc []]"
    by (simp add: to_bulk_actions_def dict_get_default_def)
next
  show "map_of book_json k = None
          \<and> k \<in> set [''source_uid'', ''author'', ''publisher'', ''description'', ''genres'', ''linkToBook'']
        \<longrightarrow> field (book_doc book_json) k = Some (JStr [])"
  proof (intro impI, elim conjE)
    assume n: "map_of book_json k = None"
      and k: "k \<in> set [''source_uid'', ''author'', ''publisher'', ''description'', ''genres'', ''linkToBook'']"
    from k have "k = ''source_uid'' \<or> k = ''author'' \<or> k = ''publisher'' \<or> k = ''description''
                   \<or> k = ''genres'' \<or> k = ''linkToBook''"
      by (simp only: list.set insert_iff empty_iff simp_thms)
    with n show "field (book_doc book_json) k = Some (JStr [])"
      by (elim disjE) (simp_all only: book_doc_str_defaults)
  qed
next
  show "map_of book_json k = None \<and> k \<in> set [''book_id'', ''title'', ''language'']
        \<longrightarrow> field (book_doc book_json) k = Some JNull"
  proof (intro impI, elim conjE)
    assume n: "map_of book_json k = None"
      and k: "k \<in> set [''book_id'', ''title'', ''language'']"
    from k have "k = ''book_id'' \<or> k = ''title'' \<or> k = ''language''"
      by (simp only: list.set insert_iff empty_iff simp_thms)
    with n show "field (book_doc book_json) k = Some JNull"
      by (elim disjE) (simp_all only: book_doc_null_defaults)
  qed
qed

theorem to_bulk_actions_total_on_encodable_witness:
  "encodable [] \<and> map_of ([] :: dict) ''author'' = None \<and> map_of ([] :: dict) ''title'' = None
   \<and> (\<exists>rest. to_bulk_actions [] ''books'' ''book_content''
                = Inr (book_action [] ''books'' # book_doc [] # rest))
   \<and> field (book_doc []) ''author'' = Some (JStr [])
   \<and> field (book_doc []) ''title'' = Some JNull"
proof -
  have e: "encodable []"
    by (simp add: encodable_def book_chapters_def dict_get_default_def)
  note a = to_bulk_actions_total_on_encodable [of "[]" "''books''" "''book_content''" "''author''"]
  note t = to_bulk_actions_total_on_encodable [of "[]" "''books''" "''book_content''" "''title''"]
  have ka: "''author'' \<in> set [''source_uid'', ''author'', ''publisher'', ''description'', ''genres'', ''linkToBook'']"
    by simp
  have kt: "''title'' \<in> set [''book_id'', ''title'', ''language'']"
    by simp
  have ma: "map_of ([] :: dict) ''author'' = None" and mt: "map_of ([] :: dict) ''title'' = None"
    by simp_all
  from a have a4: "map_of ([] :: dict) ''author'' = None
          \<and> ''author'' \<in> set [''source_uid'', ''author'', ''publisher'', ''description'', ''genres'', ''linkToBook'']
        \<longrightarrow> field (book_doc []) ''author'' = Some (JStr [])"
    by (elim conjE)
  from t have t5: "map_of ([] :: dict) ''title'' = None \<and> ''title'' \<in> set [''book_id'', ''title'', ''language'']
        \<longrightarrow> field (book_doc []) ''title'' = Some JNull"
    by (elim conjE)
  from a have a2: "encodable [] \<longrightarrow> (\<exists>rest. to_bulk_actions [] ''books'' ''book_content''
                = Inr (book_action [] ''books'' # book_doc [] # rest))"
    by (elim conjE)
  from a4 ma ka have fa: "field (book_doc []) ''author'' = Some (JStr [])" by (simp only: simp_thms)
  from t5 mt kt have ft: "field (book_doc []) ''title'' = Some JNull" by (simp only: simp_thms)
  from a2 e have r: "\<exists>rest. to_bulk_actions [] ''books'' ''book_content''
                = Inr (book_action [] ''books'' # book_doc [] # rest)" by (simp only: simp_thms)
  from e ma mt r fa ft show ?thesis by (intro conjI)
qed

end
